theory Spec2Isabelle
  imports Main
begin

section \<open>RoadExport: the data model of export.py\<close>

text \<open>
  The export format is a closed enumeration (class ExportFormat); the configuration and
  the outcome are the dataclasses ExportConfig and ExportResult, field by field. The
  delimiter is one character: csv.writer accepts no other delimiter.
\<close>

datatype ExportFormat = CSV | JSON | JSONL | TSV | XML

record ExportConfig =
  format :: ExportFormat
  columns :: "string list option"
  column_labels :: "(string \<times> string) list option"
  delimiter :: char
  include_header :: bool
  date_format :: string
  null_value :: string
  encoding :: string
  batch_size :: int

record ExportResult =
  success :: bool
  row_count :: int
  byte_count :: int
  duration_ms :: int
  error :: "string option"

text \<open>The dataclass defaults: \<open>ExportConfig()\<close>, and \<open>ExportConfig(format=f)\<close>.\<close>

definition default_config :: ExportConfig where
  "default_config =
     \<lparr>format = CSV, columns = None, column_labels = None, delimiter = CHR '','',
      include_header = True, date_format = ''%Y-%m-%d %H:%M:%S'', null_value = [],
      encoding = ''utf-8'', batch_size = 1000\<rparr>"

definition config_for :: "ExportFormat \<Rightarrow> ExportConfig" where
  "config_for f = default_config\<lparr>format := f\<rparr>"

text \<open>\<open>ExportResult(success=True, row_count=n)\<close> and the failed outcome with a message.\<close>

definition ok_result :: "int \<Rightarrow> ExportResult" where
  "ok_result n = \<lparr>success = True, row_count = n, byte_count = 0, duration_ms = 0, error = None\<rparr>"

definition failed_result :: "string \<Rightarrow> ExportResult" where
  "failed_result msg =
     \<lparr>success = False, row_count = 0, byte_count = 0, duration_ms = 0, error = Some msg\<rparr>"

text \<open>
  A naive timestamp (datetime.now() carries no time zone) with its fields and its method
  \<open>strftime\<close>. What \<open>strftime\<close> prints for a pattern is decided by the C library of the
  platform, so the model does not compute it: a timestamp carries the function from
  patterns to texts that the platform gives it, and the exporters call it as the code does.
\<close>

record datetime =
  year :: nat
  month :: nat
  day :: nat
  hour :: nat
  minute :: nat
  second :: nat
  microsecond :: nat
  strftime :: "string \<Rightarrow> string"

text \<open>
  The program does no arithmetic on a float, it only prints it. A float is therefore given
  by the text \<open>repr\<close> prints for it (the shortest decimal that reads back as the same
  float): not a number, an infinity with its sign, a fixed-point numeral (sign, integer
  part, leading zeros and remaining digits of the fraction, as in \<open>-0.0\<close> or \<open>12.05\<close>),
  or a scientific numeral (sign, integer part, optional fraction, exponent, as in \<open>1e+16\<close>
  or \<open>1.5e-07\<close>).
\<close>

datatype pyfloat =
    FNan
  | FInf bool
  | FFixed bool nat nat nat
  | FSci bool nat "(nat \<times> nat) option" int

text \<open>
  The dynamically typed values of a record as a tagged union: None, bool, int, float, str,
  datetime, list, dict with text keys, and \<open>VOther s\<close>, an object of any other class
  whose \<open>str()\<close> is \<open>s\<close> and which the json module does not know (a Decimal, a UUID, a
  set). A dict is an association list in key order; a record is a dict at top level.
\<close>

datatype pyvalue =
    VNone
  | VBool bool
  | VInt int
  | VFloat pyfloat
  | VStr string
  | VDatetime datetime
  | VList "pyvalue list"
  | VDict "(string \<times> pyvalue) list"
  | VOther string

type_synonym pyrecord = "(string \<times> pyvalue) list"

text \<open>The exceptions of the model: what json.dumps, an index out of range and \<open>open\<close>
  raise, and whatever a transformer raises.\<close>

datatype pyerror = TypeError | IndexError | OSError | LookupError | Raised string

section \<open>Library functions the exporters call\<close>

subsection \<open>str of an integer, of a float and of a datetime\<close>

definition digit_char :: "nat \<Rightarrow> char" where
  "digit_char n = char_of (48 + n)"

fun str_nat :: "nat \<Rightarrow> string" where
  "str_nat n = (if n < 10 then [digit_char n] else str_nat (n div 10) @ [digit_char (n mod 10)])"

declare str_nat.simps [simp del]

definition str_int :: "int \<Rightarrow> string" where
  "str_int i = (if i < 0 then CHR ''-'' # str_nat (nat (- i)) else str_nat (nat i))"

definition zpad :: "nat \<Rightarrow> nat \<Rightarrow> string" where
  "zpad w n = replicate (w - length (str_nat n)) CHR ''0'' @ str_nat n"

text \<open>\<open>str\<close> and \<open>repr\<close> of a float.\<close>

definition frac_digits :: "nat \<Rightarrow> nat \<Rightarrow> string" where
  "frac_digits z f = replicate z CHR ''0'' @ str_nat f"

fun float_repr :: "pyfloat \<Rightarrow> string" where
  "float_repr FNan = ''nan''"
| "float_repr (FInf neg) = (if neg then ''-inf'' else ''inf'')"
| "float_repr (FFixed neg i z f) =
     (if neg then ''-'' else []) @ str_nat i @ ''.'' @ frac_digits z f"
| "float_repr (FSci neg m fr e) =
     (if neg then ''-'' else []) @ str_nat m @
     (case fr of None \<Rightarrow> [] | Some (z, f) \<Rightarrow> ''.'' @ frac_digits z f) @
     ''e'' @ (if e < 0 then ''-'' else ''+'') @ zpad 2 (nat \<bar>e\<bar>)"

text \<open>\<open>str(datetime)\<close> is the ISO form with a space, the microseconds only when not zero.\<close>

definition str_datetime :: "datetime \<Rightarrow> string" where
  "str_datetime d =
     zpad 4 (year d) @ ''-'' @ zpad 2 (month d) @ ''-'' @ zpad 2 (day d) @ '' '' @
     zpad 2 (hour d) @ '':'' @ zpad 2 (minute d) @ '':'' @ zpad 2 (second d) @
     (if microsecond d = 0 then [] else ''.'' @ zpad 6 (microsecond d))"

subsection \<open>str.join and str.replace of one character\<close>

fun join :: "string \<Rightarrow> string list \<Rightarrow> string" where
  "join sep [] = []"
| "join sep [x] = x"
| "join sep (x # y # r) = x @ sep @ join sep (y # r)"

definition replace_char :: "char \<Rightarrow> string \<Rightarrow> string \<Rightarrow> string" where
  "replace_char old new s = concat (map (\<lambda>c. if c = old then new else [c]) s)"

subsection \<open>json.dumps\<close>

text \<open>
  The encoder with its defaults (ensure_ascii, separators \<open>', '\<close> and \<open>': '\<close>, or \<open>','\<close>
  and a new line with indentation when \<open>indent\<close> is given). A text is quoted and every
  character outside the printable ASCII range, the quote and the backslash are escaped.
\<close>

definition dquote :: char where "dquote = CHR 0x22"
definition backslash :: char where "backslash = CHR 0x5C"

definition hex_digit :: "nat \<Rightarrow> char" where
  "hex_digit n = (if n < 10 then char_of (48 + n) else char_of (87 + n))"

definition escape_char :: "char \<Rightarrow> string" where
  "escape_char c =
     (if c = dquote then [backslash, dquote]
      else if c = backslash then [backslash, backslash]
      else if c = CHR 0x0A then [backslash, CHR ''n'']
      else if c = CHR 0x0D then [backslash, CHR ''r'']
      else if c = CHR 0x09 then [backslash, CHR ''t'']
      else if c = CHR 0x08 then [backslash, CHR ''b'']
      else if c = CHR 0x0C then [backslash, CHR ''f'']
      else if (of_char c :: nat) < 32 \<or> 126 < (of_char c :: nat)
        then [backslash, CHR ''u'', CHR ''0'', CHR ''0'',
              hex_digit (of_char c div 16), hex_digit (of_char c mod 16)]
      else [c])"

definition encode_basestring_ascii :: "string \<Rightarrow> string" where
  "encode_basestring_ascii s = dquote # concat (map escape_char s) @ [dquote]"

definition newline_indent :: "nat option \<Rightarrow> nat \<Rightarrow> string" where
  "newline_indent indent level =
     (case indent of None \<Rightarrow> [] | Some n \<Rightarrow> CHR 0x0A # replicate (n * level) CHR '' '')"

definition item_separator :: "nat option \<Rightarrow> string" where
  "item_separator indent = (case indent of None \<Rightarrow> '', '' | Some n \<Rightarrow> '','')"

text \<open>The encoder's text of a float (\<open>allow_nan\<close> is on by default): \<open>repr\<close> for a finite
  float, and three names that are not JSON for the others.\<close>

fun floatstr :: "pyfloat \<Rightarrow> string" where
  "floatstr FNan = ''NaN''"
| "floatstr (FInf neg) = (if neg then ''-Infinity'' else ''Infinity'')"
| "floatstr (FFixed neg i z f) = float_repr (FFixed neg i z f)"
| "floatstr (FSci neg m fr e) = float_repr (FSci neg m fr e)"

text \<open>
  \<open>encode indent level v\<close> is the text of \<open>v\<close> at nesting depth \<open>level\<close>. An object the
  encoder does not know is passed to \<open>default\<close>; with \<open>default=str\<close> its \<open>str()\<close> is encoded
  as a text, which is what the equations for \<open>VDatetime\<close> and \<open>VOther\<close> say. Without a
  \<open>default\<close> the encoder raises TypeError on such an object: \<open>serializable\<close> tells whether
  a value holds none.
\<close>

fun encode :: "nat option \<Rightarrow> nat \<Rightarrow> pyvalue \<Rightarrow> string" where
  "encode indent level VNone = ''null''"
| "encode indent level (VBool b) = (if b then ''true'' else ''false'')"
| "encode indent level (VInt i) = str_int i"
| "encode indent level (VFloat f) = floatstr f"
| "encode indent level (VStr s) = encode_basestring_ascii s"
| "encode indent level (VDatetime d) = encode_basestring_ascii (str_datetime d)"
| "encode indent level (VOther s) = encode_basestring_ascii s"
| "encode indent level (VList vs) =
     (if vs = [] then ''[]''
      else ''['' @ newline_indent indent (Suc level) @
           join (item_separator indent @ newline_indent indent (Suc level))
                (map (encode indent (Suc level)) vs) @
           newline_indent indent level @ '']'')"
| "encode indent level (VDict kvs) =
     (if kvs = [] then ''{}''
      else ''{'' @ newline_indent indent (Suc level) @
           join (item_separator indent @ newline_indent indent (Suc level))
                (map (\<lambda>kv. encode_basestring_ascii (fst kv) @ '': '' @
                            encode indent (Suc level) (snd kv)) kvs) @
           newline_indent indent level @ ''}'')"

fun serializable :: "pyvalue \<Rightarrow> bool" where
  "serializable VNone = True"
| "serializable (VBool b) = True"
| "serializable (VInt i) = True"
| "serializable (VFloat f) = True"
| "serializable (VStr s) = True"
| "serializable (VDatetime d) = False"
| "serializable (VOther s) = False"
| "serializable (VList vs) = list_all serializable vs"
| "serializable (VDict kvs) = list_all (\<lambda>kv. serializable (snd kv)) kvs"

definition json_dumps :: "nat option \<Rightarrow> bool \<Rightarrow> pyvalue \<Rightarrow> pyerror + string" where
  "json_dumps indent default_str v =
     (if default_str \<or> serializable v then Inr (encode indent 0 v) else Inl TypeError)"

section \<open>DataFormatter\<close>

text \<open>\<open>format_value\<close>, in the order of its tests; the last four equations are \<open>str(value)\<close>.\<close>

fun format_value :: "ExportConfig \<Rightarrow> pyvalue \<Rightarrow> pyerror + string" where
  "format_value cfg VNone = Inr (null_value cfg)"
| "format_value cfg (VDatetime d) = Inr (strftime d (date_format cfg))"
| "format_value cfg (VBool b) = Inr (if b then ''true'' else ''false'')"
| "format_value cfg (VList vs) = json_dumps None False (VList vs)"
| "format_value cfg (VDict kvs) = json_dumps None False (VDict kvs)"
| "format_value cfg (VInt i) = Inr (str_int i)"
| "format_value cfg (VFloat f) = Inr (float_repr f)"
| "format_value cfg (VStr s) = Inr s"
| "format_value cfg (VOther s) = Inr s"

text \<open>\<open>row.get(col)\<close>: None for a missing key.\<close>

definition row_get :: "pyrecord \<Rightarrow> string \<Rightarrow> pyvalue" where
  "row_get row col = (case map_of row col of None \<Rightarrow> VNone | Some v \<Rightarrow> v)"

text \<open>The list comprehension of \<open>format_row\<close> evaluates left to right and stops at the first
  exception.\<close>

fun format_row :: "ExportConfig \<Rightarrow> pyrecord \<Rightarrow> string list \<Rightarrow> pyerror + string list" where
  "format_row cfg row [] = Inr []"
| "format_row cfg row (col # cols) =
     (case format_value cfg (row_get row col) of
        Inl e \<Rightarrow> Inl e
      | Inr s \<Rightarrow> (case format_row cfg row cols of Inl e \<Rightarrow> Inl e | Inr ss \<Rightarrow> Inr (s # ss)))"

section \<open>CSVExporter\<close>

text \<open>
  csv.writer in the default dialect: a field holding the delimiter, a quote or a line break
  is quoted with its quotes doubled, a row of one empty field is written as two quotes, and
  every row ends with carriage return and line feed. The sink is the text written so far.
\<close>

definition needs_quote :: "char \<Rightarrow> string \<Rightarrow> bool" where
  "needs_quote delim s =
     list_ex (\<lambda>c. c = delim \<or> c = dquote \<or> c = CHR 0x0D \<or> c = CHR 0x0A) s"

definition csv_field :: "char \<Rightarrow> string \<Rightarrow> string" where
  "csv_field delim s =
     (if needs_quote delim s
      then dquote # concat (map (\<lambda>c. if c = dquote then [dquote, dquote] else [c]) s) @ [dquote]
      else s)"

definition writerow :: "char \<Rightarrow> string list \<Rightarrow> string \<Rightarrow> string" where
  "writerow delim cells output =
     output @
     (if cells = [[]] then [dquote, dquote] else join [delim] (map (csv_field delim) cells)) @
     [CHR 0x0D, CHR 0x0A]"

text \<open>\<open>self.config.columns or list(data[0].keys())\<close>, as in CSVExporter.export: the
  column list when it is truthy (neither None nor empty), else the keys of the first
  record; the index raises on an empty list.\<close>

definition csv_columns :: "ExportConfig \<Rightarrow> pyrecord list \<Rightarrow> pyerror + string list" where
  "csv_columns cfg data =
     (case columns cfg of
        Some cs \<Rightarrow> (if cs \<noteq> [] then Inr cs
                   else (case data of [] \<Rightarrow> Inl IndexError | r # rs \<Rightarrow> Inr (map fst r)))
      | None \<Rightarrow> (case data of [] \<Rightarrow> Inl IndexError | r # rs \<Rightarrow> Inr (map fst r)))"

text \<open>The labels: \<open>column_labels.get(c, c)\<close> when there are labels, else \<open>c\<close>.\<close>

definition labels_of :: "ExportConfig \<Rightarrow> string list \<Rightarrow> string list" where
  "labels_of cfg cols =
     map (\<lambda>c. case column_labels cfg of
                None \<Rightarrow> c
              | Some ls \<Rightarrow> (if ls \<noteq> [] then (case map_of ls c of None \<Rightarrow> c | Some l \<Rightarrow> l) else c))
         cols"

text \<open>The row loop shared by \<open>export\<close> and \<open>export_stream\<close>: the sink and the count are
  threaded through, an exception of the formatter leaves what was written.\<close>

fun write_rows ::
  "ExportConfig \<Rightarrow> string list \<Rightarrow> pyrecord list \<Rightarrow> string \<Rightarrow> int \<Rightarrow> string \<times> (pyerror + ExportResult)"
where
  "write_rows cfg cols [] output n = (output, Inr (ok_result n))"
| "write_rows cfg cols (row # rest) output n =
     (case format_row cfg row cols of
        Inl e \<Rightarrow> (output, Inl e)
      | Inr formatted \<Rightarrow> write_rows cfg cols rest (writerow (delimiter cfg) formatted output) (n + 1))"

definition CSVExporter_export ::
  "ExportConfig \<Rightarrow> pyrecord list \<Rightarrow> string \<Rightarrow> string \<times> (pyerror + ExportResult)"
where
  "CSVExporter_export cfg data output =
     (if data = [] then (output, Inr (ok_result 0))
      else (case csv_columns cfg data of
              Inl e \<Rightarrow> (output, Inl e)
            | Inr cols \<Rightarrow>
                write_rows cfg cols data
                  (if include_header cfg then writerow (delimiter cfg) (labels_of cfg cols) output
                   else output) 0))"

definition CSVExporter_export_stream ::
  "ExportConfig \<Rightarrow> pyrecord list \<Rightarrow> string \<Rightarrow> string list \<Rightarrow> string \<times> (pyerror + ExportResult)"
where
  "CSVExporter_export_stream cfg data_generator output cols =
     write_rows cfg cols data_generator
       (if include_header cfg then writerow (delimiter cfg) (labels_of cfg cols) output
        else output) 0"

section \<open>JSONExporter\<close>

text \<open>
  The column filter (the dict comprehension) keeps the items whose key is in
  \<open>config.columns\<close>; it runs only when that list is truthy. Both writers call
  json.dumps with \<open>default=str\<close>; \<open>export\<close> returns \<open>len(data)\<close>, \<open>export_jsonl\<close>
  counts the rows it wrote.
\<close>

definition keep_columns :: "string list \<Rightarrow> pyrecord \<Rightarrow> pyrecord" where
  "keep_columns cs row = filter (\<lambda>kv. fst kv \<in> set cs) row"

definition JSONExporter_export ::
  "ExportConfig \<Rightarrow> pyrecord list \<Rightarrow> string \<Rightarrow> bool \<Rightarrow> string \<times> (pyerror + ExportResult)"
where
  "JSONExporter_export cfg data output pretty =
     (let indent = (if pretty then Some 2 else None);
          filtered = (case columns cfg of
                        None \<Rightarrow> data
                      | Some cs \<Rightarrow> (if cs \<noteq> [] then map (keep_columns cs) data else data))
      in case json_dumps indent True (VList (map VDict filtered)) of
           Inl e \<Rightarrow> (output, Inl e)
         | Inr text \<Rightarrow> (output @ text, Inr (ok_result (int (length data)))))"

text \<open>\<open>if self.config.columns: row = {...}\<close>, the filter of one row in \<open>export_jsonl\<close>.\<close>

definition filter_row :: "ExportConfig \<Rightarrow> pyrecord \<Rightarrow> pyrecord" where
  "filter_row cfg row =
     (case columns cfg of
        None \<Rightarrow> row
      | Some cs \<Rightarrow> (if cs \<noteq> [] then keep_columns cs row else row))"

fun jsonl_rows ::
  "ExportConfig \<Rightarrow> pyrecord list \<Rightarrow> string \<Rightarrow> int \<Rightarrow> string \<times> (pyerror + ExportResult)"
where
  "jsonl_rows cfg [] output n = (output, Inr (ok_result n))"
| "jsonl_rows cfg (row # rest) output n =
     (case json_dumps None True (VDict (filter_row cfg row)) of
        Inl e \<Rightarrow> (output, Inl e)
      | Inr text \<Rightarrow> jsonl_rows cfg rest (output @ text @ [CHR 0x0A]) (n + 1))"

definition JSONExporter_export_jsonl ::
  "ExportConfig \<Rightarrow> pyrecord list \<Rightarrow> string \<Rightarrow> string \<times> (pyerror + ExportResult)"
where
  "JSONExporter_export_jsonl cfg data output = jsonl_rows cfg data output 0"

section \<open>XMLExporter\<close>

text \<open>The three replacements of line 151, in their order.\<close>

definition xml_escape :: "string \<Rightarrow> string" where
  "xml_escape v =
     replace_char CHR ''>'' ''&gt;'' (replace_char CHR ''<'' ''&lt;'' (replace_char CHR ''&'' ''&amp;'' v))"

text \<open>\<open>self.config.columns or (list(data[0].keys()) if data else [])\<close>.\<close>

definition xml_columns :: "ExportConfig \<Rightarrow> pyrecord list \<Rightarrow> string list" where
  "xml_columns cfg data =
     (case columns cfg of
        Some cs \<Rightarrow> (if cs \<noteq> [] then cs else (case data of [] \<Rightarrow> [] | r # rs \<Rightarrow> map fst r))
      | None \<Rightarrow> (case data of [] \<Rightarrow> [] | r # rs \<Rightarrow> map fst r))"

fun xml_cells ::
  "ExportConfig \<Rightarrow> pyrecord \<Rightarrow> string list \<Rightarrow> string \<Rightarrow> string \<times> (pyerror + unit)"
where
  "xml_cells cfg row [] output = (output, Inr ())"
| "xml_cells cfg row (col # cols) output =
     (case format_value cfg (row_get row col) of
        Inl e \<Rightarrow> (output, Inl e)
      | Inr v \<Rightarrow>
          xml_cells cfg row cols
            (output @ ''    <'' @ col @ ''>'' @ xml_escape v @ ''</'' @ col @ ''>'' @ [CHR 0x0A]))"

fun xml_rows ::
  "ExportConfig \<Rightarrow> string \<Rightarrow> string list \<Rightarrow> pyrecord list \<Rightarrow> string \<Rightarrow> int \<Rightarrow>
   string \<times> (pyerror + int)"
where
  "xml_rows cfg row_element cols [] output n = (output, Inr n)"
| "xml_rows cfg row_element cols (row # rest) output n =
     (case xml_cells cfg row cols (output @ ''  <'' @ row_element @ ''>'' @ [CHR 0x0A]) of
        (out, Inl e) \<Rightarrow> (out, Inl e)
      | (out, Inr u) \<Rightarrow>
          xml_rows cfg row_element cols rest
            (out @ ''  </'' @ row_element @ ''>'' @ [CHR 0x0A]) (n + 1))"

definition xml_declaration :: "ExportConfig \<Rightarrow> string" where
  "xml_declaration cfg =
     ''<?xml version='' @ [dquote] @ ''1.0'' @ [dquote] @ '' encoding='' @ [dquote] @
     encoding cfg @ [dquote] @ ''?>'' @ [CHR 0x0A]"

definition XMLExporter_export ::
  "ExportConfig \<Rightarrow> string \<Rightarrow> string \<Rightarrow> pyrecord list \<Rightarrow> string \<Rightarrow>
   string \<times> (pyerror + ExportResult)"
where
  "XMLExporter_export cfg root_element row_element data output =
     (case xml_rows cfg row_element (xml_columns cfg data) data
             (output @ xml_declaration cfg @ ''<'' @ root_element @ ''>'' @ [CHR 0x0A]) 0 of
        (out, Inl e) \<Rightarrow> (out, Inl e)
      | (out, Inr n) \<Rightarrow> (out @ ''</'' @ root_element @ ''>'', Inr (ok_result n)))"

section \<open>ExportManager\<close>

text \<open>
  The manager's state is its list of transformers, in registration order. A transformer is
  any callable on a record: it may raise, and nothing catches it.
\<close>

type_synonym transformer = "pyrecord \<Rightarrow> pyerror + pyrecord"

definition add_transformer :: "transformer list \<Rightarrow> transformer \<Rightarrow> transformer list" where
  "add_transformer transformers fn = transformers @ [fn]"

text \<open>The inner loop of \<open>_transform\<close>: \<open>row = transformer(row)\<close> for each transformer.\<close>

fun apply_transformers :: "transformer list \<Rightarrow> pyrecord \<Rightarrow> pyerror + pyrecord" where
  "apply_transformers [] row = Inr row"
| "apply_transformers (t # ts) row =
     (case t row of Inl e \<Rightarrow> Inl e | Inr row' \<Rightarrow> apply_transformers ts row')"

text \<open>The outer loop, with the list \<open>result\<close> it appends to.\<close>

fun transform_loop ::
  "transformer list \<Rightarrow> pyrecord list \<Rightarrow> pyrecord list \<Rightarrow> pyerror + pyrecord list"
where
  "transform_loop ts [] result = Inr result"
| "transform_loop ts (row # rest) result =
     (case apply_transformers ts row of
        Inl e \<Rightarrow> Inl e
      | Inr row' \<Rightarrow> transform_loop ts rest (result @ [row']))"

definition transform :: "transformer list \<Rightarrow> pyrecord list \<Rightarrow> pyerror + pyrecord list" where
  "transform ts data = (if ts = [] then Inr data else transform_loop ts data [])"

text \<open>\<open>config or ExportConfig(...)\<close>: a dataclass instance is always truthy.\<close>

definition config_or :: "ExportConfig option \<Rightarrow> ExportConfig \<Rightarrow> ExportConfig" where
  "config_or config dflt = (case config of None \<Rightarrow> dflt | Some c \<Rightarrow> c)"

text \<open>The in-memory entry points write to a fresh StringIO and return its value, whatever
  the outcome says; an exception passes through.\<close>

definition getvalue :: "string \<times> (pyerror + ExportResult) \<Rightarrow> pyerror + string" where
  "getvalue r = (case r of (out, Inl e) \<Rightarrow> Inl e | (out, Inr res) \<Rightarrow> Inr out)"

definition export_csv ::
  "transformer list \<Rightarrow> pyrecord list \<Rightarrow> ExportConfig option \<Rightarrow> pyerror + string"
where
  "export_csv ts data config =
     (case transform ts data of
        Inl e \<Rightarrow> Inl e
      | Inr d \<Rightarrow> getvalue (CSVExporter_export (config_or config default_config) d []))"

definition export_json ::
  "transformer list \<Rightarrow> pyrecord list \<Rightarrow> ExportConfig option \<Rightarrow> bool \<Rightarrow> pyerror + string"
where
  "export_json ts data config pretty =
     (case transform ts data of
        Inl e \<Rightarrow> Inl e
      | Inr d \<Rightarrow> getvalue (JSONExporter_export (config_or config (config_for JSON)) d [] pretty))"

definition export_jsonl ::
  "transformer list \<Rightarrow> pyrecord list \<Rightarrow> ExportConfig option \<Rightarrow> pyerror + string"
where
  "export_jsonl ts data config =
     (case transform ts data of
        Inl e \<Rightarrow> Inl e
      | Inr d \<Rightarrow> getvalue (JSONExporter_export_jsonl (config_or config (config_for JSONL)) d []))"

definition export_xml ::
  "transformer list \<Rightarrow> pyrecord list \<Rightarrow> ExportConfig option \<Rightarrow> pyerror + string"
where
  "export_xml ts data config =
     (case transform ts data of
        Inl e \<Rightarrow> Inl e
      | Inr d \<Rightarrow>
          getvalue (XMLExporter_export (config_or config (config_for XML)) ''data'' ''row'' d []))"

text \<open>
  The host of the program, as far as \<open>open(filepath, "w", encoding=...)\<close> sees it: the
  text of the file at each path, the paths that can be opened for writing, and the
  encoding names the codec registry knows. \<open>open\<close> first opens the file, which creates it or
  empties it, or raises OSError; then it looks the encoding up and raises LookupError for an
  unknown one, the file staying behind, empty.
\<close>

record host =
  files :: "string \<Rightarrow> string option"
  openable :: "string \<Rightarrow> bool"
  codec_known :: "string \<Rightarrow> bool"

definition open_w :: "host \<Rightarrow> string \<Rightarrow> string \<Rightarrow> host \<times> (pyerror + unit)" where
  "open_w h filepath enc =
     (if \<not> openable h filepath then (h, Inl OSError)
      else if \<not> codec_known h enc then (h\<lparr>files := (files h)(filepath \<mapsto> [])\<rparr>, Inl LookupError)
      else (h\<lparr>files := (files h)(filepath \<mapsto> [])\<rparr>, Inr ()))"

text \<open>
  \<open>export_to_file\<close> opens the destination with the configured encoding, dispatches on the
  format with the open file as the sink, and leaves the \<open>with\<close> block, which closes the
  file on every way out; the result is the host after the call and the outcome or the
  exception. No branch handles TSV: the call falls out of the \<open>with\<close> block to the last
  line. A write that the device refuses or that the encoding cannot express is not
  modelled: what is written reaches the file.
\<close>

definition export_to_file ::
  "transformer list \<Rightarrow> pyrecord list \<Rightarrow> string \<Rightarrow> ExportConfig option \<Rightarrow> host \<Rightarrow>
   host \<times> (pyerror + ExportResult)"
where
  "export_to_file ts data filepath config h =
     (let cfg = config_or config default_config in
      case open_w h filepath (encoding cfg) of
        (h', Inl e) \<Rightarrow> (h', Inl e)
      | (h', Inr u) \<Rightarrow>
          (let f = [];
               r = (if format cfg = CSV then
                      (case transform ts data of
                         Inl e \<Rightarrow> (f, Inl e)
                       | Inr d \<Rightarrow> CSVExporter_export cfg d f)
                    else if format cfg = JSON then
                      (case transform ts data of
                         Inl e \<Rightarrow> (f, Inl e)
                       | Inr d \<Rightarrow> JSONExporter_export cfg d f True)
                    else if format cfg = JSONL then
                      (case transform ts data of
                         Inl e \<Rightarrow> (f, Inl e)
                       | Inr d \<Rightarrow> JSONExporter_export_jsonl cfg d f)
                    else if format cfg = XML then
                      (case transform ts data of
                         Inl e \<Rightarrow> (f, Inl e)
                       | Inr d \<Rightarrow> XMLExporter_export cfg ''data'' ''row'' d f)
                    else (f, Inr (failed_result ''Unknown format'')))
           in (h'\<lparr>files := (files h')(filepath \<mapsto> fst r)\<rparr>, snd r)))"

section \<open>Reading JSON text\<close>

text \<open>
  What the claims about the JSON writers call valid JSON is decided by a reader of JSON
  text: a recursive-descent parser of the grammar of RFC 8259, restricted to escapes of
  code points below 256. White space is skipped before every token. The parser recurses
  on a counter that \<open>json_loads\<close> sets beyond the length of its input. A number without
  fraction and exponent is read as an integer; any other number is kept as its sign,
  integer part, fraction digits and exponent. \<open>JNonFinite\<close> stands for the three names
  that Python's own reader accepts beyond JSON; no text is read as it here.
\<close>

datatype json =
    JNull
  | JBool bool
  | JNumber int
  | JReal bool nat string "int option"
  | JNonFinite string
  | JString string
  | JArray "json list"
  | JObject "(string \<times> json) list"

definition is_ws :: "char \<Rightarrow> bool" where
  "is_ws c = (c = CHR '' '' \<or> c = CHR 0x0A \<or> c = CHR 0x0D \<or> c = CHR 0x09)"

definition skip_ws :: "string \<Rightarrow> string" where
  "skip_ws s = dropWhile is_ws s"

definition is_digit :: "char \<Rightarrow> bool" where
  "is_digit c = ((48::nat) \<le> of_char c \<and> (of_char c :: nat) \<le> 57)"

definition digits_val :: "string \<Rightarrow> nat" where
  "digits_val ds = foldl (\<lambda>a c. 10 * a + (of_char c - 48)) 0 ds"

text \<open>An unsigned integer: one digit at least, and no leading zero before another digit.\<close>

definition parse_digits :: "string \<Rightarrow> (nat \<times> string) option" where
  "parse_digits s =
     (let ds = takeWhile is_digit s in
      if ds = [] \<or> (take 1 ds = ''0'' \<and> 1 < length ds) then None
      else Some (digits_val ds, dropWhile is_digit s))"

text \<open>A fraction is a point and one digit at least; an exponent is \<open>e\<close> or \<open>E\<close>, a sign
  or none, and one digit at least.\<close>

definition parse_frac :: "string \<Rightarrow> (string \<times> string) option" where
  "parse_frac s =
     (case s of
        [] \<Rightarrow> Some ([], [])
      | c # r \<Rightarrow>
          if c = CHR ''.''
          then (let ds = takeWhile is_digit r in
                if ds = [] then None else Some (ds, dropWhile is_digit r))
          else Some ([], s))"

definition parse_exp :: "string \<Rightarrow> (int option \<times> string) option" where
  "parse_exp s =
     (case s of
        [] \<Rightarrow> Some (None, [])
      | c # r \<Rightarrow>
          if c = CHR ''e'' \<or> c = CHR ''E''
          then (case r of
                  [] \<Rightarrow> None
                | c' # r' \<Rightarrow>
                    (let body = (if c' = CHR ''-'' \<or> c' = CHR ''+'' then r' else r);
                         ds = takeWhile is_digit body in
                     if ds = [] then None
                     else Some (Some (if c' = CHR ''-'' then - int (digits_val ds)
                                      else int (digits_val ds)),
                                dropWhile is_digit body)))
          else Some (None, s))"

definition parse_unsigned :: "bool \<Rightarrow> string \<Rightarrow> (json \<times> string) option" where
  "parse_unsigned neg s =
     (case parse_digits s of
        None \<Rightarrow> None
      | Some (n, r1) \<Rightarrow>
          (case parse_frac r1 of
             None \<Rightarrow> None
           | Some (fr, r2) \<Rightarrow>
               (case parse_exp r2 of
                  None \<Rightarrow> None
                | Some (ex, r3) \<Rightarrow>
                    Some (if fr = [] \<and> ex = None
                          then JNumber (if neg then - int n else int n)
                          else JReal neg n fr ex, r3))))"

definition parse_number :: "string \<Rightarrow> (json \<times> string) option" where
  "parse_number s =
     (case s of
        [] \<Rightarrow> None
      | c # r \<Rightarrow> if c = CHR ''-'' then parse_unsigned True r else parse_unsigned False s)"

definition hex_val :: "char \<Rightarrow> nat option" where
  "hex_val c =
     (let n = (of_char c :: nat) in
      if 48 \<le> n \<and> n \<le> 57 then Some (n - 48)
      else if 97 \<le> n \<and> n \<le> 102 then Some (n - 87)
      else if 65 \<le> n \<and> n \<le> 70 then Some (n - 55)
      else None)"

definition unescape :: "char \<Rightarrow> char option" where
  "unescape e =
     (if e = dquote then Some dquote
      else if e = backslash then Some backslash
      else if e = CHR ''/'' then Some CHR ''/''
      else if e = CHR ''n'' then Some (CHR 0x0A)
      else if e = CHR ''r'' then Some (CHR 0x0D)
      else if e = CHR ''t'' then Some (CHR 0x09)
      else if e = CHR ''b'' then Some (CHR 0x08)
      else if e = CHR ''f'' then Some (CHR 0x0C)
      else None)"

text \<open>The characters of a text after its opening quote, up to the closing quote.\<close>

fun parse_chars :: "string \<Rightarrow> (string \<times> string) option" where
  "parse_chars [] = None"
| "parse_chars (c # r) =
     (if c = dquote then Some ([], r)
      else if c = backslash then
        (case r of
           [] \<Rightarrow> None
         | e # r1 \<Rightarrow>
             if e = CHR ''u'' then
               (case r1 of
                  h1 # h2 # h3 # h4 # r2 \<Rightarrow>
                    (case (hex_val h1, hex_val h2, hex_val h3, hex_val h4) of
                       (Some a, Some b, Some c', Some d) \<Rightarrow>
                         if a = 0 \<and> b = 0 then
                           (case parse_chars r2 of
                              None \<Rightarrow> None
                            | Some (s, rest) \<Rightarrow> Some (char_of (16 * c' + d) # s, rest))
                         else None
                     | _ \<Rightarrow> None)
                | _ \<Rightarrow> None)
             else
               (case unescape e of
                  None \<Rightarrow> None
                | Some ch \<Rightarrow>
                    (case parse_chars r1 of
                       None \<Rightarrow> None
                     | Some (s, rest) \<Rightarrow> Some (ch # s, rest))))
      else if (of_char c :: nat) < 32 then None
      else (case parse_chars r of None \<Rightarrow> None | Some (s, rest) \<Rightarrow> Some (c # s, rest)))"

fun parse_value :: "nat \<Rightarrow> string \<Rightarrow> (json \<times> string) option"
  and parse_elements :: "nat \<Rightarrow> string \<Rightarrow> (json list \<times> string) option"
  and parse_members :: "nat \<Rightarrow> string \<Rightarrow> ((string \<times> json) list \<times> string) option"
where
  "parse_value 0 s = None"
| "parse_value (Suc n) s =
     (case skip_ws s of
        [] \<Rightarrow> None
      | c # r \<Rightarrow>
          if c = CHR ''n'' then (if take 3 r = ''ull'' then Some (JNull, drop 3 r) else None)
          else if c = CHR ''t'' then
            (if take 3 r = ''rue'' then Some (JBool True, drop 3 r) else None)
          else if c = CHR ''f'' then
            (if take 4 r = ''alse'' then Some (JBool False, drop 4 r) else None)
          else if c = dquote then
            (case parse_chars r of None \<Rightarrow> None | Some (str, r') \<Rightarrow> Some (JString str, r'))
          else if c = CHR ''['' then
            (case skip_ws r of
               [] \<Rightarrow> None
             | c' # r' \<Rightarrow>
                 if c' = CHR '']'' then Some (JArray [], r')
                 else (case parse_elements n r of
                         None \<Rightarrow> None
                       | Some (vs, r'') \<Rightarrow> Some (JArray vs, r'')))
          else if c = CHR ''{'' then
            (case skip_ws r of
               [] \<Rightarrow> None
             | c' # r' \<Rightarrow>
                 if c' = CHR ''}'' then Some (JObject [], r')
                 else (case parse_members n r of
                         None \<Rightarrow> None
                       | Some (kvs, r'') \<Rightarrow> Some (JObject kvs, r'')))
          else parse_number (c # r))"
| "parse_elements 0 s = None"
| "parse_elements (Suc n) s =
     (case parse_value n s of
        None \<Rightarrow> None
      | Some (v, r) \<Rightarrow>
          (case skip_ws r of
             [] \<Rightarrow> None
           | c # r' \<Rightarrow>
               if c = CHR '','' then
                 (case parse_elements n r' of
                    None \<Rightarrow> None
                  | Some (vs, r'') \<Rightarrow> Some (v # vs, r''))
               else if c = CHR '']'' then Some ([v], r')
               else None))"
| "parse_members 0 s = None"
| "parse_members (Suc n) s =
     (case skip_ws s of
        [] \<Rightarrow> None
      | c # r \<Rightarrow>
          if c = dquote then
            (case parse_chars r of
               None \<Rightarrow> None
             | Some (k, r1) \<Rightarrow>
                 (case skip_ws r1 of
                    [] \<Rightarrow> None
                  | c1 # r2 \<Rightarrow>
                      if c1 = CHR '':'' then
                        (case parse_value n r2 of
                           None \<Rightarrow> None
                         | Some (v, r3) \<Rightarrow>
                             (case skip_ws r3 of
                                [] \<Rightarrow> None
                              | c3 # r4 \<Rightarrow>
                                  if c3 = CHR '','' then
                                    (case parse_members n r4 of
                                       None \<Rightarrow> None
                                     | Some (kvs, r5) \<Rightarrow> Some ((k, v) # kvs, r5))
                                  else if c3 = CHR ''}'' then Some ([(k, v)], r4)
                                  else None))
                      else None))
          else None)"

definition json_loads :: "string \<Rightarrow> json option" where
  "json_loads s =
     (case parse_value (Suc (length s)) s of
        None \<Rightarrow> None
      | Some (v, r) \<Rightarrow> if skip_ws r = [] then Some v else None)"

text \<open>The JSON value that the text of a record value stands for, an object the encoder
  does not know being written as the text of its \<open>str()\<close>.\<close>

fun float_json :: "pyfloat \<Rightarrow> json" where
  "float_json FNan = JNonFinite ''NaN''"
| "float_json (FInf neg) = JNonFinite (if neg then ''-Infinity'' else ''Infinity'')"
| "float_json (FFixed neg i z f) = JReal neg i (frac_digits z f) None"
| "float_json (FSci neg m fr e) =
     JReal neg m (case fr of None \<Rightarrow> [] | Some (z, f) \<Rightarrow> frac_digits z f) (Some e)"

fun to_json :: "pyvalue \<Rightarrow> json" where
  "to_json VNone = JNull"
| "to_json (VBool b) = JBool b"
| "to_json (VInt i) = JNumber i"
| "to_json (VFloat f) = float_json f"
| "to_json (VStr s) = JString s"
| "to_json (VDatetime d) = JString (str_datetime d)"
| "to_json (VOther s) = JString s"
| "to_json (VList vs) = JArray (map to_json vs)"
| "to_json (VDict kvs) = JObject (map (\<lambda>kv. (fst kv, to_json (snd kv))) kvs)"

text \<open>The lines of a text: the pieces that end at a line feed, and what is left after
  the last one if it is not empty.\<close>

fun split_acc :: "string \<Rightarrow> string \<Rightarrow> string list" where
  "split_acc acc [] = (if acc = [] then [] else [acc])"
| "split_acc acc (c # s) =
     (if c = CHR 0x0A then acc # split_acc [] s else split_acc (acc @ [c]) s)"

definition split_lines :: "string \<Rightarrow> string list" where
  "split_lines s = split_acc [] s"

definition is_object :: "json option \<Rightarrow> bool" where
  "is_object j = (case j of Some (JObject kvs) \<Rightarrow> True | _ \<Rightarrow> False)"

text \<open>The values that hold no float other than a finite one.\<close>

fun finite_float :: "pyfloat \<Rightarrow> bool" where
  "finite_float FNan = False"
| "finite_float (FInf neg) = False"
| "finite_float (FFixed neg i z f) = True"
| "finite_float (FSci neg m fr e) = True"

fun finite_value :: "pyvalue \<Rightarrow> bool" where
  "finite_value (VFloat f) = finite_float f"
| "finite_value (VList vs) = list_all finite_value vs"
| "finite_value (VDict kvs) = list_all (\<lambda>kv. finite_value (snd kv)) kvs"
| "finite_value VNone = True"
| "finite_value (VBool b) = True"
| "finite_value (VInt i) = True"
| "finite_value (VStr s) = True"
| "finite_value (VDatetime d) = True"
| "finite_value (VOther s) = True"

text \<open>Notions of the proofs below: a text after which a run of digits ends, a text after
  which a number ends (it goes on with no digit, point or exponent mark), and the
  characters a JSON value can start with.\<close>

definition no_digit :: "string \<Rightarrow> bool" where
  "no_digit rest = (case rest of [] \<Rightarrow> True | c # r \<Rightarrow> \<not> is_digit c)"

definition follow :: "string \<Rightarrow> bool" where
  "follow rest =
     (case rest of
        [] \<Rightarrow> True
      | c # r \<Rightarrow> \<not> is_digit c \<and> c \<noteq> CHR ''.'' \<and> c \<noteq> CHR ''e'' \<and> c \<noteq> CHR ''E'')"

definition value_start :: "char \<Rightarrow> bool" where
  "value_start c =
     (c = CHR ''n'' \<or> c = CHR ''t'' \<or> c = CHR ''f'' \<or> c = dquote \<or> c = CHR ''['' \<or>
      c = CHR ''{'' \<or> c = CHR ''-'' \<or> is_digit c)"

section \<open>A transformer of the scenarios\<close>


section \<open>Properties\<close>

subsection \<open>The column list of the configuration does not reach the formatter\<close>

lemma format_value_columns [simp]:
  "format_value (cfg\<lparr>columns := x\<rparr>) v = format_value cfg v"
  by (cases v) simp_all

lemma format_row_columns [simp]:
  "format_row (cfg\<lparr>columns := x\<rparr>) row cols = format_row cfg row cols"
  by (induction cols) (simp_all split: sum.splits)

lemma write_rows_columns [simp]:
  "write_rows (cfg\<lparr>columns := x\<rparr>) cols data out n = write_rows cfg cols data out n"
  by (induction data arbitrary: out n) (simp_all split: sum.splits)

lemma labels_of_columns [simp]:
  "labels_of (cfg\<lparr>columns := x\<rparr>) cols = labels_of cfg cols"
  by (simp add: labels_of_def)

lemma xml_cells_columns [simp]:
  "xml_cells (cfg\<lparr>columns := x\<rparr>) row cols out = xml_cells cfg row cols out"
  by (induction cols arbitrary: out) (simp_all split: sum.splits)

lemma xml_rows_columns [simp]:
  "xml_rows (cfg\<lparr>columns := x\<rparr>) re cols data out n = xml_rows cfg re cols data out n"
  by (induction data arbitrary: out n) (simp_all split: sum.splits prod.splits)

lemma jsonl_rows_empty_columns:
  "jsonl_rows (cfg\<lparr>columns := Some []\<rparr>) data out n = jsonl_rows (cfg\<lparr>columns := None\<rparr>) data out n"
  by (induction data arbitrary: out n) (simp_all add: filter_row_def split: sum.splits)

subsection \<open>The unknown format\<close>

text \<open>
  Claim C1 says that with an unhandled format \<open>export_to_file\<close> never raises, for every
  configuration. The destination is opened with the configured encoding before the format
  is looked at: with the format TSV and an encoding name that the codec registry does not
  know, \<open>open\<close> raises LookupError, no outcome is returned, and the destination, which held
  a text before the call, is left empty.
\<close>

theorem export_to_file_open_counterexample:
  "format ((config_for TSV)\<lparr>encoding := ''no-such-codec''\<rparr>) = TSV \<and>
   export_to_file [] [[(''id'', VInt 1)]] ''out.tsv''
       (Some ((config_for TSV)\<lparr>encoding := ''no-such-codec''\<rparr>))
       \<lparr>files = [''out.tsv'' \<mapsto> ''old''], openable = (\<lambda>p. True),
        codec_known = (\<lambda>e. e = ''utf-8'')\<rparr> =
     (\<lparr>files = [''out.tsv'' \<mapsto> []], openable = (\<lambda>p. True),
       codec_known = (\<lambda>e. e = ''utf-8'')\<rparr>, Inl LookupError)"
  by (simp add: export_to_file_def open_w_def config_or_def config_for_def default_config_def)

text \<open>
  Claim C1, amended. For every record list, every list of transformers and every
  configuration whose format is none of the four dispatched ones (of the enumeration, that
  is TSV): when the destination can be opened for writing and the configured encoding is
  known, \<open>export_to_file\<close> returns an outcome and raises nothing, not even when a
  transformer would raise, for no transformer and no writer is run. The outcome has
  \<open>success = False\<close> and the message \<open>Unknown format\<close>, and nothing is written to the
  destination, which opening has created or emptied: it holds the empty text after the
  call, whatever it held before, and no other file has changed. When the destination
  cannot be opened, the exception of \<open>open\<close> passes to the caller: OSError with the host
  unchanged, or LookupError for an unknown encoding with the destination left empty.
\<close>

theorem export_to_file_unknown_format:
  assumes "format cfg \<noteq> CSV" and "format cfg \<noteq> JSON" and "format cfg \<noteq> JSONL"
    and "format cfg \<noteq> XML"
  shows "(openable h filepath \<and> codec_known h (encoding cfg) \<longrightarrow>
            export_to_file ts data filepath (Some cfg) h =
              (h\<lparr>files := (files h)(filepath \<mapsto> [])\<rparr>,
               Inr (failed_result ''Unknown format''))) \<and>
         (\<not> openable h filepath \<longrightarrow>
            export_to_file ts data filepath (Some cfg) h = (h, Inl OSError)) \<and>
         (openable h filepath \<and> \<not> codec_known h (encoding cfg) \<longrightarrow>
            export_to_file ts data filepath (Some cfg) h =
              (h\<lparr>files := (files h)(filepath \<mapsto> [])\<rparr>, Inl LookupError)) \<and>
         \<not> success (failed_result ''Unknown format'') \<and>
         error (failed_result ''Unknown format'') = Some ''Unknown format''"
  using assms
  by (simp add: export_to_file_def open_w_def config_or_def failed_result_def)

theorem export_to_file_unknown_format_witness:
  "format (config_for TSV) \<noteq> CSV \<and> format (config_for TSV) \<noteq> JSON \<and>
   format (config_for TSV) \<noteq> JSONL \<and> format (config_for TSV) \<noteq> XML \<and>
   openable \<lparr>files = [''out.tsv'' \<mapsto> ''old''], openable = (\<lambda>p. True),
             codec_known = (\<lambda>e. e = ''utf-8'')\<rparr> ''out.tsv'' \<and>
   codec_known \<lparr>files = [''out.tsv'' \<mapsto> ''old''], openable = (\<lambda>p. True),
                codec_known = (\<lambda>e. e = ''utf-8'')\<rparr> (encoding (config_for TSV)) \<and>
   export_to_file [\<lambda>r. Inl (Raised ''boom'')] [[(''id'', VInt 1)]] ''out.tsv''
       (Some (config_for TSV))
       \<lparr>files = [''out.tsv'' \<mapsto> ''old''], openable = (\<lambda>p. True),
        codec_known = (\<lambda>e. e = ''utf-8'')\<rparr> =
     (\<lparr>files = [''out.tsv'' \<mapsto> []], openable = (\<lambda>p. True),
       codec_known = (\<lambda>e. e = ''utf-8'')\<rparr>, Inr (failed_result ''Unknown format''))"
  using export_to_file_unknown_format
          [of "config_for TSV"
              "\<lparr>files = [''out.tsv'' \<mapsto> ''old''], openable = (\<lambda>p. True),
                codec_known = (\<lambda>e. e = ''utf-8'')\<rparr>"
              "''out.tsv''" "[\<lambda>r. Inl (Raised ''boom'')]" "[[(''id'', VInt 1)]]"]
  by (simp add: config_for_def default_config_def)

subsection \<open>Empty input of the buffered delimited writer\<close>

text \<open>
  Claim C4. \<open>CSVExporter.export\<close> on an empty record list leaves the sink as it was, header
  or no header, and returns a successful outcome with \<open>row_count = 0\<close>. So \<open>export_csv\<close>
  returns the empty text and \<open>export_to_file\<close> in the CSV format, once it has opened the
  destination, leaves it empty, with any transformers registered.
\<close>

theorem csv_export_empty:
  "CSVExporter_export cfg [] out = (out, Inr (ok_result 0)) \<and>
   success (ok_result 0) \<and> row_count (ok_result 0) = 0 \<and> error (ok_result 0) = None \<and>
   export_csv ts [] config = Inr [] \<and>
   (format (config_or config default_config) = CSV \<and> openable h filepath \<and>
    codec_known h (encoding (config_or config default_config)) \<longrightarrow>
      export_to_file ts [] filepath config h =
        (h\<lparr>files := (files h)(filepath \<mapsto> [])\<rparr>, Inr (ok_result 0)))"
  by (simp add: CSVExporter_export_def ok_result_def export_csv_def transform_def getvalue_def
      export_to_file_def open_w_def)

theorem csv_export_empty_witness:
  "CSVExporter_export (default_config\<lparr>include_header := True\<rparr>) [] ''abc'' =
     (''abc'', Inr (ok_result 0)) \<and>
   export_csv [] [] None = Inr [] \<and>
   format (config_or None default_config) = CSV \<and>
   export_to_file [] [] ''out.csv'' None
       \<lparr>files = Map.empty, openable = (\<lambda>p. True), codec_known = (\<lambda>e. e = ''utf-8'')\<rparr> =
     (\<lparr>files = [''out.csv'' \<mapsto> []], openable = (\<lambda>p. True),
       codec_known = (\<lambda>e. e = ''utf-8'')\<rparr>, Inr (ok_result 0))"
  using csv_export_empty [of "default_config\<lparr>include_header := True\<rparr>" "''abc''" "[]" None
          "\<lparr>files = Map.empty, openable = (\<lambda>p. True), codec_known = (\<lambda>e. e = ''utf-8'')\<rparr>"
          "''out.csv''"]
  by (simp add: config_or_def default_config_def)

subsection \<open>The CSV scenarios\<close>

text \<open>
  Claim C5. With the default configuration the two records \<open>{id: 1, name: Alice}\<close> and
  \<open>{id: 2, name: Bob}\<close> are exported as the header \<open>id,name\<close> and the lines \<open>1,Alice\<close> and
  \<open>2,Bob\<close>; with \<open>columns = [name]\<close> and the label \<open>Name\<close> for it, as \<open>Name\<close>, \<open>Alice\<close>,
  \<open>Bob\<close>. Every row, the header too, ends with the csv module's line terminator,
  carriage return and line feed.
\<close>

theorem csv_example:
  "export_csv [] [[(''id'', VInt 1), (''name'', VStr ''Alice'')],
                  [(''id'', VInt 2), (''name'', VStr ''Bob'')]] None =
     Inr (''id,name'' @ [CHR 0x0D, CHR 0x0A] @ ''1,Alice'' @ [CHR 0x0D, CHR 0x0A] @
          ''2,Bob'' @ [CHR 0x0D, CHR 0x0A]) \<and>
   export_csv [] [[(''id'', VInt 1), (''name'', VStr ''Alice'')],
                  [(''id'', VInt 2), (''name'', VStr ''Bob'')]]
       (Some (default_config\<lparr>columns := Some [''name''],
                               column_labels := Some [(''name'', ''Name'')]\<rparr>)) =
     Inr (''Name'' @ [CHR 0x0D, CHR 0x0A] @ ''Alice'' @ [CHR 0x0D, CHR 0x0A] @
          ''Bob'' @ [CHR 0x0D, CHR 0x0A])"
  by code_simp

subsection \<open>Empty input of the streaming delimited writer\<close>

text \<open>
  Claim C10. \<open>CSVExporter.export_stream\<close> with \<open>include_header\<close> set writes the header row
  for an empty input: the sink grows by the row of the labels of the caller's column list
  (the configured label of a column, else its name), and the outcome is successful with
  \<open>row_count = 0\<close>. The buffered \<open>export\<close> leaves the sink untouched for the same input.
\<close>

theorem export_stream_empty_header:
  assumes "include_header cfg"
  shows "CSVExporter_export_stream cfg [] out cols =
           (writerow (delimiter cfg) (labels_of cfg cols) out, Inr (ok_result 0)) \<and>
         success (ok_result 0) \<and> row_count (ok_result 0) = 0 \<and>
         length out < length (writerow (delimiter cfg) (labels_of cfg cols) out) \<and>
         labels_of cfg cols =
           map (\<lambda>c. case column_labels cfg of
                      None \<Rightarrow> c
                    | Some ls \<Rightarrow> (case map_of ls c of None \<Rightarrow> c | Some l \<Rightarrow> l)) cols \<and>
         fst (CSVExporter_export cfg [] out) = out"
  using assms
  by (auto simp add: CSVExporter_export_stream_def CSVExporter_export_def writerow_def
      ok_result_def labels_of_def split: option.splits)

theorem export_stream_empty_header_witness:
  "include_header (default_config\<lparr>column_labels := Some [(''id'', ''ID'')]\<rparr>) \<and>
   CSVExporter_export_stream (default_config\<lparr>column_labels := Some [(''id'', ''ID'')]\<rparr>) [] []
       [''id'', ''name''] =
     (''ID,name'' @ [CHR 0x0D, CHR 0x0A], Inr (ok_result 0))"
  using export_stream_empty_header
          [of "default_config\<lparr>column_labels := Some [(''id'', ''ID'')]\<rparr>" "[]" "[''id'', ''name'']"]
  by (simp add: default_config_def writerow_def labels_of_def csv_field_def needs_quote_def
      dquote_def)

subsection \<open>Column resolution\<close>

text \<open>
  Claim C3 says that a column list that is set is used as it is. The code tests the list
  for truth (\<open>self.config.columns or ...\<close>), so the empty list counts as unset: with
  \<open>columns = []\<close> and one record \<open>{a: 1}\<close> the resolved columns are \<open>[a]\<close>, not \<open>[]\<close>.
\<close>

theorem empty_columns_counterexample:
  "columns (default_config\<lparr>columns := Some []\<rparr>) = Some [] \<and>
   csv_columns (default_config\<lparr>columns := Some []\<rparr>) [[(''a'', VInt 1)]] = Inr [''a''] \<and>
   xml_columns (default_config\<lparr>columns := Some []\<rparr>) [[(''a'', VInt 1)]] = [''a''] \<and>
   export_csv [] [[(''a'', VInt 1)]] (Some (default_config\<lparr>columns := Some []\<rparr>)) =
     Inr (''a'' @ [CHR 0x0D, CHR 0x0A] @ ''1'' @ [CHR 0x0D, CHR 0x0A])"
  by code_simp


text \<open>
  Claim C3, amended. A column list that is set and not empty is the resolved list, in its
  order. When the list is unset or empty, the resolved list is the key order of the first
  record, and (in the XML writer, the only one that resolves columns for an empty input)
  it is empty when there is no record. The label of a column is its entry in
  \<open>column_labels\<close> and the column's own name when there are no labels or none for it.
\<close>

theorem column_resolution:
  "(columns cfg = Some cs \<and> cs \<noteq> [] \<longrightarrow>
      csv_columns cfg data = Inr cs \<and> xml_columns cfg data = cs) \<and>
   (columns cfg = None \<or> columns cfg = Some [] \<longrightarrow>
      csv_columns cfg (r # rs) = Inr (map fst r) \<and> xml_columns cfg (r # rs) = map fst r \<and>
      xml_columns cfg [] = []) \<and>
   labels_of cfg cols =
     map (\<lambda>c. case column_labels cfg of
                None \<Rightarrow> c
              | Some ls \<Rightarrow> (case map_of ls c of None \<Rightarrow> c | Some l \<Rightarrow> l)) cols"
  by (auto simp add: csv_columns_def xml_columns_def labels_of_def split: option.splits)

theorem column_resolution_witness:
  "columns (default_config\<lparr>columns := Some [''b'', ''a'']\<rparr>) = Some [''b'', ''a''] \<and>
   [''b'', ''a''] \<noteq> [] \<and>
   csv_columns (default_config\<lparr>columns := Some [''b'', ''a'']\<rparr>) [[(''a'', VInt 1), (''b'', VInt 2)]] =
     Inr [''b'', ''a''] \<and>
   xml_columns (default_config\<lparr>columns := Some [''b'', ''a'']\<rparr>) [[(''a'', VInt 1), (''b'', VInt 2)]] =
     [''b'', ''a''] \<and>
   columns default_config = None \<and>
   csv_columns default_config [[(''a'', VInt 1), (''b'', VInt 2)], [(''c'', VNone)]] =
     Inr [''a'', ''b''] \<and>
   xml_columns default_config [[(''a'', VInt 1), (''b'', VInt 2)], [(''c'', VNone)]] = [''a'', ''b''] \<and>
   xml_columns default_config [] = [] \<and>
   labels_of (default_config\<lparr>column_labels := Some [(''a'', ''A'')]\<rparr>) [''b'', ''a''] = [''b'', ''A'']"
  using column_resolution [of "default_config\<lparr>columns := Some [''b'', ''a'']\<rparr>" "[''b'', ''a'']"
          "[[(''a'', VInt 1), (''b'', VInt 2)]]" "[(''a'', VInt 1), (''b'', VInt 2)]" "[]" "[]"]
        column_resolution [of default_config "[]" "[]" "[(''a'', VInt 1), (''b'', VInt 2)]"
          "[[(''c'', VNone)]]" "[]"]
        column_resolution [of "default_config\<lparr>column_labels := Some [(''a'', ''A'')]\<rparr>" "[]" "[]"
          "[]" "[]" "[''b'', ''a'']"]
  by (simp add: default_config_def)

subsection \<open>The transform pipeline\<close>








subsection \<open>The value formatter\<close>

text \<open>
  The rules of \<open>format_value\<close> in their order: the null token (empty by default), the
  timestamp in the configured pattern, the lowercase boolean, the JSON text of a list or
  dict, and the \<open>str()\<close> of anything else. The fourth rule calls json.dumps without
  \<open>default\<close>, so it returns the JSON text only for a list or dict that holds nothing but
  None, booleans, integers, floats, texts, lists and dicts, and raises TypeError for any
  other.
\<close>

lemma format_value_rules:
  "format_value cfg VNone = Inr (null_value cfg) \<and>
   null_value default_config = [] \<and>
   format_value cfg (VDatetime d) = Inr (strftime d (date_format cfg)) \<and>
   format_value cfg (VBool True) = Inr ''true'' \<and>
   format_value cfg (VBool False) = Inr ''false'' \<and>
   (serializable (VList vs) \<longrightarrow> format_value cfg (VList vs) = Inr (encode None 0 (VList vs))) \<and>
   (serializable (VDict kvs) \<longrightarrow> format_value cfg (VDict kvs) = Inr (encode None 0 (VDict kvs))) \<and>
   (\<not> serializable (VList vs) \<longrightarrow> format_value cfg (VList vs) = Inl TypeError) \<and>
   (\<not> serializable (VDict kvs) \<longrightarrow> format_value cfg (VDict kvs) = Inl TypeError) \<and>
   format_value cfg (VInt i) = Inr (str_int i) \<and>
   format_value cfg (VFloat x) = Inr (float_repr x) \<and>
   format_value cfg (VStr s) = Inr s \<and>
   format_value cfg (VOther s) = Inr s"
  by (simp add: json_dumps_def default_config_def)

text \<open>
  Claim C2 says that the formatter maps every list or mapping to its JSON text and never
  raises. The code raises TypeError for a list that holds a timestamp and for a dict that
  holds an object the json module does not know, while the JSON writers, which pass
  \<open>default=str\<close> to the same json.dumps, write such a list.
\<close>

theorem format_value_nested_timestamp:
  "format_value default_config
     (VList [VDatetime \<lparr>year = 2024, month = 1, day = 2, hour = 3, minute = 4, second = 5,
                        microsecond = 0, strftime = f\<rparr>]) = Inl TypeError \<and>
   format_value default_config (VDict [(''price'', VOther ''9.99'')]) = Inl TypeError \<and>
   json_dumps None True
     (VList [VDatetime \<lparr>year = 2024, month = 1, day = 2, hour = 3, minute = 4, second = 5,
                        microsecond = 0, strftime = f\<rparr>]) =
     Inr (''['' @ [dquote] @ ''2024-01-02 03:04:05'' @ [dquote] @ '']'')"
  by code_simp

subsection \<open>The XML writer\<close>

text \<open>
  The three replacements in a row are one pass over the characters, so the ampersands
  that the escapes bring in are not escaped again. When the formatter returns for every
  cell, the document is the declaration, the root tag, for each record a row element with
  one child per resolved column, named by the field and holding the escaped text, and the
  closing root tag with nothing after it; the outcome counts the records.
\<close>

lemma xml_escape_one_pass:
  "xml_escape v =
     concat (map (\<lambda>c. if c = CHR ''&'' then ''&amp;''
                       else if c = CHR ''<'' then ''&lt;''
                       else if c = CHR ''>'' then ''&gt;'' else [c]) v)"
  by (induction v) (simp_all add: xml_escape_def replace_char_def)

lemma xml_escape_example: "xml_escape ''<b>&</b>'' = ''&lt;b&gt;&amp;&lt;/b&gt;''"
  by (simp add: xml_escape_def replace_char_def)

lemma xml_cells_returns:
  "list_all (\<lambda>col. \<not> isl (format_value cfg (row_get row col))) cols \<Longrightarrow>
   xml_cells cfg row cols out =
     (out @ concat (map (\<lambda>col. ''    <'' @ col @ ''>'' @
                               xml_escape (projr (format_value cfg (row_get row col))) @
                               ''</'' @ col @ ''>'' @ [CHR 0x0A]) cols), Inr ())"
proof (induction cols arbitrary: out)
  case Nil
  show ?case by simp
next
  case (Cons col cols)
  from Cons.prems obtain v where v: "format_value cfg (row_get row col) = Inr v"
    by (cases "format_value cfg (row_get row col)") auto
  from Cons.prems have "list_all (\<lambda>col. \<not> isl (format_value cfg (row_get row col))) cols"
    by simp
  from Cons.IH [OF this] v show ?case by simp
qed

lemma xml_rows_returns:
  "list_all (\<lambda>row. list_all (\<lambda>col. \<not> isl (format_value cfg (row_get row col))) cols) data \<Longrightarrow>
   xml_rows cfg row_element cols data out n =
     (out @ concat (map (\<lambda>row. ''  <'' @ row_element @ ''>'' @ [CHR 0x0A] @
                       concat (map (\<lambda>col. ''    <'' @ col @ ''>'' @
                                 xml_escape (projr (format_value cfg (row_get row col))) @
                                 ''</'' @ col @ ''>'' @ [CHR 0x0A]) cols) @
                       ''  </'' @ row_element @ ''>'' @ [CHR 0x0A]) data),
      Inr (n + int (length data)))"
proof (induction data arbitrary: out n)
  case Nil
  show ?case by simp
next
  case (Cons row data)
  from Cons.prems
  have c: "list_all (\<lambda>col. \<not> isl (format_value cfg (row_get row col))) cols"
    and r: "list_all (\<lambda>row. list_all (\<lambda>col. \<not> isl (format_value cfg (row_get row col))) cols) data"
    by simp_all
  show ?case
    by (simp add: xml_cells_returns [OF c] Cons.IH [OF r])
qed

lemma xml_export_document:
  assumes "list_all (\<lambda>row. list_all (\<lambda>col. \<not> isl (format_value cfg (row_get row col)))
                              (xml_columns cfg data)) data"
  shows "XMLExporter_export cfg root_element row_element data out =
     (out @ xml_declaration cfg @ ''<'' @ root_element @ ''>'' @ [CHR 0x0A] @
      concat (map (\<lambda>row. ''  <'' @ row_element @ ''>'' @ [CHR 0x0A] @
                concat (map (\<lambda>col. ''    <'' @ col @ ''>'' @
                          xml_escape (projr (format_value cfg (row_get row col))) @
                          ''</'' @ col @ ''>'' @ [CHR 0x0A]) (xml_columns cfg data)) @
                ''  </'' @ row_element @ ''>'' @ [CHR 0x0A]) data) @
      ''</'' @ root_element @ ''>'',
      Inr (ok_result (int (length data))))"
  by (simp add: XMLExporter_export_def xml_rows_returns [OF assms])

lemma xml_export_example:
  "export_xml [] [[(''a&b'', VNone), (''v'', VStr ''<b>&</b>'')]]
     (Some (default_config\<lparr>column_labels := Some [(''v'', ''Value'')], null_value := ''-''\<rparr>)) =
   Inr (''<?xml version='' @ [dquote] @ ''1.0'' @ [dquote] @ '' encoding='' @ [dquote] @ ''utf-8'' @
      [dquote] @ ''?>'' @ [CHR 0x0A] @ ''<data>'' @ [CHR 0x0A] @ ''  <row>'' @ [CHR 0x0A] @
      ''    <a&b>-</a&b>'' @ [CHR 0x0A] @
      ''    <v>&lt;b&gt;&amp;&lt;/b&gt;</v>'' @ [CHR 0x0A] @ ''  </row>'' @ [CHR 0x0A] @ ''</data>'')"
  by code_simp

text \<open>
  Claim C8 says that the XML writer emits a row element for each record of every record
  list and ends the document with the closing root tag. For a record with a list that
  holds a timestamp the formatter raises in the middle of the row: the sink is left with
  an open row and no closing tag, and the writer returns no outcome.
\<close>

theorem xml_export_nested_timestamp:
  "XMLExporter_export default_config ''data'' ''row''
     [[(''id'', VInt 1),
       (''seen'', VList [VDatetime \<lparr>year = 2024, month = 1, day = 2, hour = 3, minute = 4,
                                    second = 5, microsecond = 0, strftime = f\<rparr>])]] [] =
     (''<?xml version='' @ [dquote] @ ''1.0'' @ [dquote] @ '' encoding='' @ [dquote] @ ''utf-8'' @
      [dquote] @ ''?>'' @ [CHR 0x0A] @ ''<data>'' @ [CHR 0x0A] @ ''  <row>'' @ [CHR 0x0A] @
      ''    <id>1</id>'' @ [CHR 0x0A], Inl TypeError)"
  by code_simp

subsection \<open>The reader of JSON text reads what the encoder writes\<close>

text \<open>White space.\<close>

lemma skip_ws_append_ws: "list_all is_ws ws \<Longrightarrow> skip_ws (ws @ s) = skip_ws s"
  by (simp add: skip_ws_def list_all_iff)

lemma skip_ws_Cons: "\<not> is_ws c \<Longrightarrow> skip_ws (c # s) = c # s"
  by (simp add: skip_ws_def)

lemma ws_newline_indent: "list_all is_ws (newline_indent indent level)"
  by (cases indent) (simp_all add: newline_indent_def is_ws_def list_all_iff)

lemma parse_value_ws: "list_all is_ws ws \<Longrightarrow> parse_value n (ws @ s) = parse_value n s"
  by (cases n) (simp_all add: skip_ws_append_ws)

lemma parse_elements_ws:
  "list_all is_ws ws \<Longrightarrow> parse_elements n (ws @ s) = parse_elements n s"
  by (cases n) (simp_all add: parse_value_ws)

lemma parse_members_ws:
  "list_all is_ws ws \<Longrightarrow> parse_members n (ws @ s) = parse_members n s"
  by (cases n) (simp_all add: skip_ws_append_ws)

text \<open>Integers: \<open>str\<close> of an integer is read back as that integer.\<close>

lemma is_digit_digit_char: "n < 10 \<Longrightarrow> is_digit (digit_char n)"
  by (simp add: is_digit_def digit_char_def)

lemma digit_char_val: "n < 10 \<Longrightarrow> (of_char (digit_char n) :: nat) - 48 = n"
  by (simp add: digit_char_def)

lemma str_nat_digits: "list_all is_digit (str_nat n)"
  by (induction n rule: str_nat.induct)
     (subst str_nat.simps, simp add: is_digit_digit_char)

lemma str_nat_nonempty: "str_nat n \<noteq> []"
  by (subst str_nat.simps) simp

lemma digits_val_snoc: "digits_val (ds @ [c]) = 10 * digits_val ds + (of_char c - 48)"
  by (simp add: digits_val_def)

lemma digits_val_str_nat: "digits_val (str_nat n) = n"
proof (induction n rule: str_nat.induct)
  case (1 n)
  show ?case
  proof (cases "n < 10")
    case True
    then show ?thesis
      by (subst str_nat.simps) (simp add: digits_val_def digit_char_val)
  next
    case False
    with 1 have "digits_val (str_nat (n div 10)) = n div 10" by simp
    with False show ?thesis
      by (subst str_nat.simps) (simp add: digits_val_snoc digit_char_val)
  qed
qed

lemma str_nat_leading_zero: "take 1 (str_nat n) = ''0'' \<Longrightarrow> length (str_nat n) = 1"
proof (induction n rule: str_nat.induct)
  case (1 n)
  show ?case
  proof (cases "n < 10")
    case True
    then show ?thesis by (subst str_nat.simps) simp
  next
    case False
    have ne: "str_nat (n div 10) \<noteq> []" by (rule str_nat_nonempty)
    from False "1.prems" have "take 1 (str_nat (n div 10)) = ''0''"
      using ne by (subst (asm) str_nat.simps) (cases "str_nat (n div 10)", simp_all)
    with 1 False have "length (str_nat (n div 10)) = 1" by simp
    with \<open>take 1 (str_nat (n div 10)) = ''0''\<close> have z: "str_nat (n div 10) = ''0''"
      by (cases "str_nat (n div 10)") simp_all
    have "digits_val (str_nat (n div 10)) = n div 10" by (rule digits_val_str_nat)
    with z have "n div 10 = 0" by (simp add: digits_val_def)
    with False show ?thesis by simp
  qed
qed


lemma follow_no_digit: "follow rest \<Longrightarrow> no_digit rest"
  by (cases rest) (simp_all add: follow_def no_digit_def)

lemma takeWhile_digits:
  "list_all is_digit ds \<Longrightarrow> no_digit rest \<Longrightarrow> takeWhile is_digit (ds @ rest) = ds"
  by (cases rest) (simp_all add: no_digit_def list_all_iff)

lemma dropWhile_digits:
  "list_all is_digit ds \<Longrightarrow> no_digit rest \<Longrightarrow> dropWhile is_digit (ds @ rest) = rest"
  by (cases rest) (simp_all add: no_digit_def list_all_iff)

lemma parse_digits_str_nat:
  "no_digit rest \<Longrightarrow> parse_digits (str_nat n @ rest) = Some (n, rest)"
  using str_nat_leading_zero [of n]
  by (auto simp add: parse_digits_def Let_def takeWhile_digits dropWhile_digits str_nat_digits
      str_nat_nonempty digits_val_str_nat)

lemma str_nat_Cons: "\<exists>c r. str_nat n = c # r \<and> is_digit c"
  using str_nat_digits [of n] str_nat_nonempty [of n] by (cases "str_nat n") simp_all

lemma is_digit_not_minus: "is_digit c \<Longrightarrow> c \<noteq> CHR ''-''"
  by (auto simp add: is_digit_def)

lemma parse_frac_none: "follow rest \<Longrightarrow> parse_frac rest = Some ([], rest)"
  by (cases rest) (simp_all add: parse_frac_def follow_def)

lemma parse_exp_none: "follow rest \<Longrightarrow> parse_exp rest = Some (None, rest)"
  by (cases rest) (simp_all add: parse_exp_def follow_def)

lemma parse_unsigned_str_nat:
  "follow rest \<Longrightarrow>
   parse_unsigned neg (str_nat n @ rest) = Some (JNumber (if neg then - int n else int n), rest)"
  by (simp add: parse_unsigned_def parse_digits_str_nat follow_no_digit parse_frac_none
      parse_exp_none)

lemma parse_number_str_nat:
  "parse_number (str_nat n @ rest) = parse_unsigned False (str_nat n @ rest)"
proof -
  obtain c r where cr: "str_nat n = c # r" and d: "is_digit c"
    using str_nat_Cons by blast
  from d have "c \<noteq> CHR ''-''" by (rule is_digit_not_minus)
  with cr show ?thesis by (simp add: parse_number_def)
qed

lemma parse_number_minus: "parse_number (CHR ''-'' # s) = parse_unsigned True s"
  by (simp add: parse_number_def)

lemma parse_number_str_int:
  assumes "follow rest"
  shows "parse_number (str_int i @ rest) = Some (JNumber i, rest)"
proof (cases "i < 0")
  case True
  with assms show ?thesis
    by (simp add: str_int_def parse_number_minus parse_unsigned_str_nat)
next
  case False
  with assms show ?thesis
    by (simp add: str_int_def parse_number_str_nat parse_unsigned_str_nat)
qed

text \<open>Floats: the text of a finite float is read back as its sign, integer part, fraction
  digits and exponent.\<close>

lemma frac_digits_digits: "list_all is_digit (frac_digits z f)"
  using str_nat_digits [of f]
  by (auto simp add: frac_digits_def list_all_iff is_digit_def)

lemma frac_digits_nonempty: "frac_digits z f \<noteq> []"
  by (simp add: frac_digits_def str_nat_nonempty)

lemma zpad_digits: "list_all is_digit (zpad w n)"
  using str_nat_digits [of n]
  by (auto simp add: zpad_def list_all_iff is_digit_def)

lemma zpad_nonempty: "zpad w n \<noteq> []"
  by (simp add: zpad_def str_nat_nonempty)

lemma digits_val_zeros: "digits_val (replicate k CHR ''0'' @ ds) = digits_val ds"
  by (induction k) (simp_all add: digits_val_def)

lemma digits_val_zpad: "digits_val (zpad w n) = n"
  by (simp add: zpad_def digits_val_zeros digits_val_str_nat)

lemma parse_frac_digits:
  "list_all is_digit ds \<Longrightarrow> ds \<noteq> [] \<Longrightarrow> no_digit rest \<Longrightarrow>
   parse_frac (CHR ''.'' # ds @ rest) = Some (ds, rest)"
  by (simp add: parse_frac_def Let_def takeWhile_digits dropWhile_digits)

lemma parse_frac_exp: "parse_frac (CHR ''e'' # s) = Some ([], CHR ''e'' # s)"
  by (simp add: parse_frac_def)

lemma no_digit_simps: "no_digit (CHR ''.'' # s)" "no_digit (CHR ''e'' # s)"
  by (simp_all add: no_digit_def is_digit_def)

lemma takeWhile_zpad: "no_digit rest \<Longrightarrow> takeWhile is_digit (zpad w n @ rest) = zpad w n"
  by (simp add: takeWhile_digits zpad_digits)

lemma dropWhile_zpad: "no_digit rest \<Longrightarrow> dropWhile is_digit (zpad w n @ rest) = rest"
  by (simp add: dropWhile_digits zpad_digits)

lemma parse_exp_digits:
  assumes "no_digit rest"
  shows "parse_exp (CHR ''e'' # (if e < 0 then ''-'' else ''+'') @ zpad 2 (nat \<bar>e\<bar>) @ rest) =
           Some (Some e, rest)"
  by (cases "e < 0")
     (simp_all add: parse_exp_def Let_def takeWhile_zpad [OF assms] dropWhile_zpad [OF assms]
        zpad_nonempty digits_val_zpad)

lemma parse_unsigned_fixed:
  assumes "follow rest"
  shows "parse_unsigned neg (str_nat i @ CHR ''.'' # frac_digits z f @ rest) =
           Some (JReal neg i (frac_digits z f) None, rest)"
proof -
  have 1: "parse_digits (str_nat i @ CHR ''.'' # frac_digits z f @ rest) =
             Some (i, CHR ''.'' # frac_digits z f @ rest)"
    by (rule parse_digits_str_nat) (rule no_digit_simps)
  have 2: "parse_frac (CHR ''.'' # frac_digits z f @ rest) = Some (frac_digits z f, rest)"
    by (rule parse_frac_digits [OF frac_digits_digits frac_digits_nonempty
          follow_no_digit [OF assms]])
  show ?thesis
    by (simp add: parse_unsigned_def 1 2 parse_exp_none [OF assms] frac_digits_nonempty)
qed

lemma parse_unsigned_sci:
  assumes "follow rest"
  shows "parse_unsigned neg
           (str_nat m @ (case fr of None \<Rightarrow> [] | Some (z, f) \<Rightarrow> ''.'' @ frac_digits z f) @
            ''e'' @ (if e < 0 then ''-'' else ''+'') @ zpad 2 (nat \<bar>e\<bar>) @ rest) =
           Some (JReal neg m (case fr of None \<Rightarrow> [] | Some (z, f) \<Rightarrow> frac_digits z f) (Some e),
                 rest)"
proof -
  let ?ex = "CHR ''e'' # (if e < 0 then ''-'' else ''+'') @ zpad 2 (nat \<bar>e\<bar>) @ rest"
  have ex: "parse_exp ?ex = Some (Some e, rest)"
    by (rule parse_exp_digits [OF follow_no_digit [OF assms]])
  show ?thesis
  proof (cases fr)
    case None
    have 1: "parse_digits (str_nat m @ ?ex) = Some (m, ?ex)"
      by (rule parse_digits_str_nat) (rule no_digit_simps)
    show ?thesis
      by (simp add: None parse_unsigned_def 1 [simplified] parse_frac_exp ex [simplified])
  next
    case (Some zf)
    obtain z f where zf: "zf = (z, f)" by (cases zf)
    have 1: "parse_digits (str_nat m @ CHR ''.'' # frac_digits z f @ ?ex) =
               Some (m, CHR ''.'' # frac_digits z f @ ?ex)"
      by (rule parse_digits_str_nat) (rule no_digit_simps)
    have 2: "parse_frac (CHR ''.'' # frac_digits z f @ ?ex) = Some (frac_digits z f, ?ex)"
      by (rule parse_frac_digits [OF frac_digits_digits frac_digits_nonempty])
         (rule no_digit_simps)
    show ?thesis
      by (simp add: Some zf parse_unsigned_def 1 [simplified] 2 [simplified] ex [simplified]
          frac_digits_nonempty)
  qed
qed

lemma parse_number_floatstr:
  assumes "finite_float x" and "follow rest"
  shows "parse_number (floatstr x @ rest) = Some (float_json x, rest)"
proof (cases x)
  case FNan
  with assms show ?thesis by simp
next
  case (FInf neg)
  with assms show ?thesis by simp
next
  case (FFixed neg i z f)
  show ?thesis
    using parse_unsigned_fixed [OF assms(2), of neg i z f]
    by (cases neg) (simp_all add: FFixed parse_number_minus parse_number_str_nat)
next
  case (FSci neg m fr e)
  show ?thesis
    using parse_unsigned_sci [OF assms(2), of neg m fr e]
    by (cases neg) (simp_all add: FSci parse_number_minus parse_number_str_nat)
qed

lemma floatstr_start:
  "finite_float x \<Longrightarrow> \<exists>c r. floatstr x = c # r \<and> (c = CHR ''-'' \<or> is_digit c)"
proof (cases x)
  case (FFixed neg i z f)
  with str_nat_Cons [of i] show ?thesis by (cases neg) auto
next
  case (FSci neg m fr e)
  with str_nat_Cons [of m] show ?thesis by (cases neg) auto
qed simp_all

text \<open>Texts: every escape of the encoder is undone by the reader.\<close>

lemma hex_val_hex_digit: "n < 16 \<Longrightarrow> hex_val (hex_digit n) = Some n"
  by (simp add: hex_val_def hex_digit_def Let_def)

lemma hex_val_zero: "hex_val CHR ''0'' = Some 0"
  by (simp add: hex_val_def)

lemma char_of_hex: "char_of (16 * ((of_char c :: nat) div 16) + of_char c mod 16) = c"
  by simp

lemma parse_chars_escape_char:
  "parse_chars (escape_char c @ t) =
     (case parse_chars t of None \<Rightarrow> None | Some (s, rest) \<Rightarrow> Some (c # s, rest))"
proof -
  have d: "(of_char c :: nat) div 16 < 16"
    using nat_of_char_less_256 [of c] by arith
  have m: "(of_char c :: nat) mod 16 < 16" by simp
  show ?thesis
    by (auto simp add: escape_char_def unescape_def dquote_def backslash_def hex_val_zero
        hex_val_hex_digit [OF d] hex_val_hex_digit [OF m] char_of_hex
        split: option.splits)
qed

lemma parse_chars_escaped:
  "parse_chars (concat (map escape_char s) @ dquote # rest) = Some (s, rest)"
  by (induction s) (simp_all add: parse_chars_escape_char)

lemma parse_chars_basestring:
  "parse_chars (tl (encode_basestring_ascii s) @ rest) = Some (s, rest)"
  by (simp add: encode_basestring_ascii_def parse_chars_escaped)

text \<open>Values: by induction on the value, with the elements of a list and the members of
  a dict read one after the other.\<close>


lemma value_start_not:
  "value_start c \<Longrightarrow> \<not> is_ws c \<and> c \<noteq> CHR '']'' \<and> c \<noteq> CHR ''}'' \<and> c \<noteq> CHR '',''"
  by (auto simp add: value_start_def is_ws_def dquote_def is_digit_def)

lemma follow_simps:
  "follow []" "follow (CHR '','' # s)" "follow (CHR '']'' # s)" "follow (CHR ''}'' # s)"
  by (simp_all add: follow_def is_digit_def)

lemma follow_ws: "list_all is_ws w \<Longrightarrow> follow s \<Longrightarrow> follow (w @ s)"
  by (cases w) (auto simp add: follow_def is_ws_def is_digit_def)

lemma str_int_start: "\<exists>c r. str_int i = c # r \<and> (c = CHR ''-'' \<or> is_digit c)"
  using str_nat_Cons [of "nat i"] by (auto simp add: str_int_def)

lemma encode_start:
  "finite_value v \<Longrightarrow> \<exists>c r. encode indent level v = c # r \<and> value_start c"
proof (cases v)
  case (VInt i)
  with str_int_start [of i] show ?thesis by (auto simp add: value_start_def)
next
  case (VFloat x)
  assume "finite_value v"
  with VFloat floatstr_start [of x] show ?thesis by (auto simp add: value_start_def)
qed (auto simp add: value_start_def encode_basestring_ascii_def)

lemma join_start:
  assumes "xs \<noteq> []" and "\<And>x. x \<in> set xs \<Longrightarrow> \<exists>c r. f x = c # r \<and> value_start c"
  shows "\<exists>c r. join sep (map f xs) = c # r \<and> value_start c"
proof (cases xs)
  case Nil
  with assms show ?thesis by simp
next
  case (Cons x xs')
  with assms(2) [of x] obtain c r where "f x = c # r" and "value_start c" by auto
  with Cons show ?thesis by (cases xs') auto
qed

lemma parse_value_null: "parse_value (Suc n) (''null'' @ rest) = Some (JNull, rest)"
  by (simp add: skip_ws_def is_ws_def)

lemma parse_value_true: "parse_value (Suc n) (''true'' @ rest) = Some (JBool True, rest)"
  by (simp add: skip_ws_def is_ws_def)

lemma parse_value_false: "parse_value (Suc n) (''false'' @ rest) = Some (JBool False, rest)"
  by (simp add: skip_ws_def is_ws_def)

lemma parse_value_string:
  "parse_value (Suc n) (encode_basestring_ascii s @ rest) = Some (JString s, rest)"
  by (simp add: encode_basestring_ascii_def skip_ws_def is_ws_def dquote_def
      parse_chars_escaped [unfolded dquote_def])

lemma parse_value_numeral:
  assumes "c = CHR ''-'' \<or> is_digit c"
  shows "parse_value (Suc n) (c # r) = parse_number (c # r)"
proof -
  from assms have "\<not> is_ws c" "c \<noteq> CHR ''n''" "c \<noteq> CHR ''t''" "c \<noteq> CHR ''f''" "c \<noteq> dquote"
    "c \<noteq> CHR ''[''" "c \<noteq> CHR ''{''"
    by (auto simp add: is_ws_def is_digit_def dquote_def)
  then show ?thesis by (simp add: skip_ws_Cons)
qed

lemma parse_value_number:
  assumes "follow rest"
  shows "parse_value (Suc n) (str_int i @ rest) = Some (JNumber i, rest)"
proof -
  obtain c r where cr: "str_int i = c # r" and c: "c = CHR ''-'' \<or> is_digit c"
    using str_int_start by blast
  have "parse_value (Suc n) (c # r @ rest) = parse_number (c # r @ rest)"
    by (rule parse_value_numeral [OF c])
  with parse_number_str_int [OF assms, of i] show ?thesis by (simp add: cr)
qed

lemma parse_value_float:
  assumes "finite_float x" and "follow rest"
  shows "parse_value (Suc n) (floatstr x @ rest) = Some (float_json x, rest)"
proof -
  obtain c r where cr: "floatstr x = c # r" and c: "c = CHR ''-'' \<or> is_digit c"
    using floatstr_start [OF assms(1)] by blast
  have "parse_value (Suc n) (c # r @ rest) = parse_number (c # r @ rest)"
    by (rule parse_value_numeral [OF c])
  with parse_number_floatstr [OF assms, simplified cr] show ?thesis by (simp add: cr)
qed

lemma parse_elements_join:
  assumes val: "\<And>x rest n. x \<in> set xs \<Longrightarrow> follow rest \<Longrightarrow> length (f x) < n \<Longrightarrow>
                  parse_value n (f x @ rest) = Some (g x, rest)"
    and W: "list_all is_ws W" and w0: "list_all is_ws w0" and ne: "xs \<noteq> []"
    and len: "length (join (CHR '','' # W) (map f xs)) + 1 < n"
  shows "parse_elements n (join (CHR '','' # W) (map f xs) @ w0 @ CHR '']'' # rest) =
           Some (map g xs, rest)"
  using val ne len
proof (induction xs arbitrary: n)
  case Nil
  then show ?case by simp
next
  case (Cons x xs)
  from Cons.prems(3) obtain m where n: "n = Suc m" by (cases n) auto
  show ?case
  proof (cases xs)
    case Nil
    from Cons.prems(3) n Nil have l: "length (f x) < m" by simp
    have fo: "follow (w0 @ CHR '']'' # rest)"
      by (rule follow_ws [OF w0]) (rule follow_simps)
    have v: "parse_value m (f x @ w0 @ CHR '']'' # rest) = Some (g x, w0 @ CHR '']'' # rest)"
      by (rule Cons.prems(1) [OF _ fo l]) simp
    have sk: "skip_ws (w0 @ CHR '']'' # rest) = CHR '']'' # rest"
      by (simp add: skip_ws_append_ws [OF w0] skip_ws_Cons is_ws_def)
    from v sk show ?thesis by (simp add: n Nil)
  next
    case (Cons y ys)
    let ?J = "join (CHR '','' # W) (map f (y # ys))"
    let ?tail = "?J @ w0 @ CHR '']'' # rest"
    from Cons.prems(3) n Cons have l: "length (f x) < m" and l': "length ?J + 1 < m"
      by simp_all
    have fo: "follow (CHR '','' # W @ ?tail)" by (rule follow_simps)
    have v: "parse_value m (f x @ CHR '','' # W @ ?tail) = Some (g x, CHR '','' # W @ ?tail)"
      by (rule Cons.prems(1) [OF _ fo l]) simp
    have sk: "skip_ws (CHR '','' # W @ ?tail) = CHR '','' # W @ ?tail"
      by (simp add: skip_ws_Cons is_ws_def)
    have "parse_elements m ?tail = Some (map g (y # ys), rest)"
      using Cons.IH [of m] Cons.prems(1) l' Cons by simp
    then have e: "parse_elements m (W @ ?tail) = Some (map g (y # ys), rest)"
      by (simp only: parse_elements_ws [OF W])
    have "parse_elements (Suc m) (f x @ CHR '','' # W @ ?tail) = Some (g x # map g (y # ys), rest)"
      by (simp only: parse_elements.simps v sk e option.case prod.case list.case simp_thms if_True)
    then show ?thesis by (simp add: n Cons)
  qed
qed

lemma parse_members_join:
  assumes val: "\<And>kv rest n. kv \<in> set kvs \<Longrightarrow> follow rest \<Longrightarrow> length (f (snd kv)) < n \<Longrightarrow>
                  parse_value n (f (snd kv) @ rest) = Some (g (snd kv), rest)"
    and W: "list_all is_ws W" and w0: "list_all is_ws w0" and ne: "kvs \<noteq> []"
    and len: "length (join (CHR '','' # W)
                (map (\<lambda>kv. encode_basestring_ascii (fst kv) @ '': '' @ f (snd kv)) kvs)) + 1 < n"
  shows "parse_members n
           (join (CHR '','' # W)
              (map (\<lambda>kv. encode_basestring_ascii (fst kv) @ '': '' @ f (snd kv)) kvs) @
            w0 @ CHR ''}'' # rest) =
           Some (map (\<lambda>kv. (fst kv, g (snd kv))) kvs, rest)"
  using val ne len
proof (induction kvs arbitrary: n)
  case Nil
  then show ?case by simp
next
  case (Cons kv kvs)
  let ?item = "\<lambda>kv. encode_basestring_ascii (fst kv) @ '': '' @ f (snd kv)"
  let ?pair = "\<lambda>kv. (fst kv, g (snd kv))"
  from Cons.prems(3) obtain m where n: "n = Suc m" by (cases n) auto
  have key: "\<And>t. skip_ws (encode_basestring_ascii (fst kv) @ t) =
                dquote # tl (encode_basestring_ascii (fst kv)) @ t"
    by (simp add: encode_basestring_ascii_def skip_ws_Cons is_ws_def dquote_def)
  have chars: "\<And>t. parse_chars (tl (encode_basestring_ascii (fst kv)) @ t) = Some (fst kv, t)"
    by (rule parse_chars_basestring)
  have colon: "\<And>t. skip_ws ('': '' @ t) = CHR '':'' # CHR '' '' # t"
    by (simp add: skip_ws_Cons is_ws_def)
  have sp: "\<And>t. parse_value m (CHR '' '' # t) = parse_value m t"
    using parse_value_ws [of "'' ''" m] by (simp add: is_ws_def)
  show ?case
  proof (cases kvs)
    case Nil
    from Cons.prems(3) n Nil have l: "length (f (snd kv)) < m" by simp
    have fo: "follow (w0 @ CHR ''}'' # rest)"
      by (rule follow_ws [OF w0]) (rule follow_simps)
    have v: "parse_value m (f (snd kv) @ w0 @ CHR ''}'' # rest) =
               Some (g (snd kv), w0 @ CHR ''}'' # rest)"
      by (rule Cons.prems(1) [OF _ fo l]) simp
    have sk: "skip_ws (w0 @ CHR ''}'' # rest) = CHR ''}'' # rest"
      by (simp add: skip_ws_append_ws [OF w0] skip_ws_Cons is_ws_def)
    have "parse_members (Suc m) (?item kv @ w0 @ CHR ''}'' # rest) = Some ([?pair kv], rest)"
      using key [of "'': '' @ f (snd kv) @ w0 @ CHR ''}'' # rest"]
        chars [of "'': '' @ f (snd kv) @ w0 @ CHR ''}'' # rest"]
        colon [of "f (snd kv) @ w0 @ CHR ''}'' # rest"]
        sp [of "f (snd kv) @ w0 @ CHR ''}'' # rest"] v sk
      by (simp del: append_Cons add: append_assoc)
    then show ?thesis by (simp add: n Nil)
  next
    case (Cons y ys)
    let ?J = "join (CHR '','' # W) (map ?item (y # ys))"
    let ?tail = "?J @ w0 @ CHR ''}'' # rest"
    from Cons.prems(3) n Cons have l: "length (f (snd kv)) < m" and l': "length ?J + 1 < m"
      by simp_all
    have fo: "follow (CHR '','' # W @ ?tail)" by (rule follow_simps)
    have v: "parse_value m (f (snd kv) @ CHR '','' # W @ ?tail) =
               Some (g (snd kv), CHR '','' # W @ ?tail)"
      by (rule Cons.prems(1) [OF _ fo l]) simp
    have sk: "skip_ws (CHR '','' # W @ ?tail) = CHR '','' # W @ ?tail"
      by (simp add: skip_ws_Cons is_ws_def)
    have "parse_members m ?tail = Some (map ?pair (y # ys), rest)"
      using Cons.IH [of m] Cons.prems(1) l' Cons by simp
    then have e: "parse_members m (W @ ?tail) = Some (map ?pair (y # ys), rest)"
      by (simp only: parse_members_ws [OF W])
    have "parse_members (Suc m) (?item kv @ CHR '','' # W @ ?tail) =
            Some (?pair kv # map ?pair (y # ys), rest)"
      using key [of "'': '' @ f (snd kv) @ CHR '','' # W @ ?tail"]
        chars [of "'': '' @ f (snd kv) @ CHR '','' # W @ ?tail"]
        colon [of "f (snd kv) @ CHR '','' # W @ ?tail"]
        sp [of "f (snd kv) @ CHR '','' # W @ ?tail"] v sk e
      by (simp del: append_Cons join.simps list.map add: append_assoc)
    then show ?thesis by (simp add: n Cons)
  qed
qed

lemma separator_form:
  "\<exists>W. item_separator indent @ newline_indent indent level = CHR '','' # W \<and> list_all is_ws W"
  by (cases indent) (simp_all add: item_separator_def newline_indent_def is_ws_def list_all_iff)

lemma parse_value_array:
  assumes "skip_ws r = c # r'" and "c \<noteq> CHR '']''"
  shows "parse_value (Suc m) (CHR ''['' # r) =
           (case parse_elements m r of None \<Rightarrow> None | Some (vs, r'') \<Rightarrow> Some (JArray vs, r''))"
  using assms by (simp add: skip_ws_Cons is_ws_def dquote_def)

lemma parse_value_object:
  assumes "skip_ws r = c # r'" and "c \<noteq> CHR ''}''"
  shows "parse_value (Suc m) (CHR ''{'' # r) =
           (case parse_members m r of None \<Rightarrow> None | Some (kvs, r'') \<Rightarrow> Some (JObject kvs, r''))"
  using assms by (simp add: skip_ws_Cons is_ws_def dquote_def)

lemma parse_value_list:
  assumes val: "\<And>x indent level rest n. x \<in> set vs \<Longrightarrow> follow rest \<Longrightarrow>
                  length (encode indent level x) < n \<Longrightarrow>
                  parse_value n (encode indent level x @ rest) = Some (to_json x, rest)"
    and fin: "\<And>x. x \<in> set vs \<Longrightarrow> finite_value x"
    and len: "length (encode indent level (VList vs)) < n"
  shows "parse_value n (encode indent level (VList vs) @ rest) = Some (to_json (VList vs), rest)"
proof (cases "vs = []")
  case True
  from len obtain m where "n = Suc m" by (cases n) auto
  with True show ?thesis by (simp add: skip_ws_Cons is_ws_def dquote_def)
next
  case False
  obtain W where sep: "item_separator indent @ newline_indent indent (Suc level) = CHR '','' # W"
    and W: "list_all is_ws W"
    using separator_form by blast
  let ?J = "join (CHR '','' # W) (map (encode indent (Suc level)) vs)"
  let ?w0 = "newline_indent indent level"
  let ?w1 = "newline_indent indent (Suc level)"
  have enc: "encode indent level (VList vs) @ rest =
               CHR ''['' # ?w1 @ ?J @ ?w0 @ CHR '']'' # rest"
    using False by (simp add: sep)
  from len False have "length ?J + 2 < n" by (simp add: sep)
  then obtain m where n: "n = Suc m" and l: "length ?J + 1 < m" by (cases n) auto
  have el: "parse_elements m (?J @ ?w0 @ CHR '']'' # rest) = Some (map to_json vs, rest)"
    by (rule parse_elements_join [OF val W ws_newline_indent False l])
  obtain c r where J: "?J = c # r" and c: "value_start c"
    using join_start [of vs "encode indent (Suc level)" "CHR '','' # W"] False
      encode_start [OF fin]
    by blast
  from c have nc: "\<not> is_ws c" "c \<noteq> CHR '']''" using value_start_not by blast+
  have "?J @ ?w0 @ CHR '']'' # rest = c # r @ ?w0 @ CHR '']'' # rest"
    unfolding J by simp
  then have sk: "skip_ws (?w1 @ ?J @ ?w0 @ CHR '']'' # rest) = c # r @ ?w0 @ CHR '']'' # rest"
    by (simp only: skip_ws_append_ws [OF ws_newline_indent] skip_ws_Cons [OF nc(1)])
  have "parse_value (Suc m) (CHR ''['' # ?w1 @ ?J @ ?w0 @ CHR '']'' # rest) =
          Some (JArray (map to_json vs), rest)"
    by (simp only: parse_value_array [OF sk nc(2)] parse_elements_ws [OF ws_newline_indent] el
        option.case prod.case)
  then show ?thesis by (simp only: enc n to_json.simps)
qed

lemma parse_value_dict:
  assumes val: "\<And>kv indent level rest n. kv \<in> set kvs \<Longrightarrow> follow rest \<Longrightarrow>
                  length (encode indent level (snd kv)) < n \<Longrightarrow>
                  parse_value n (encode indent level (snd kv) @ rest) = Some (to_json (snd kv), rest)"
    and len: "length (encode indent level (VDict kvs)) < n"
  shows "parse_value n (encode indent level (VDict kvs) @ rest) = Some (to_json (VDict kvs), rest)"
proof (cases "kvs = []")
  case True
  from len obtain m where "n = Suc m" by (cases n) auto
  with True show ?thesis by (simp add: skip_ws_Cons is_ws_def dquote_def)
next
  case False
  obtain W where sep: "item_separator indent @ newline_indent indent (Suc level) = CHR '','' # W"
    and W: "list_all is_ws W"
    using separator_form by blast
  let ?item = "\<lambda>kv. encode_basestring_ascii (fst kv) @ '': '' @ encode indent (Suc level) (snd kv)"
  let ?J = "join (CHR '','' # W) (map ?item kvs)"
  let ?w0 = "newline_indent indent level"
  let ?w1 = "newline_indent indent (Suc level)"
  have enc: "encode indent level (VDict kvs) @ rest =
               CHR ''{'' # ?w1 @ ?J @ ?w0 @ CHR ''}'' # rest"
    using False by (simp add: sep)
  from len False have "length ?J + 2 < n" by (simp add: sep)
  then obtain m where n: "n = Suc m" and l: "length ?J + 1 < m" by (cases n) auto
  have el: "parse_members m (?J @ ?w0 @ CHR ''}'' # rest) =
              Some (map (\<lambda>kv. (fst kv, to_json (snd kv))) kvs, rest)"
    by (rule parse_members_join [OF val W ws_newline_indent False l])
  have "\<And>kv. \<exists>c r. ?item kv = c # r \<and> value_start c"
    by (simp add: encode_basestring_ascii_def value_start_def)
  then obtain c r where J: "?J = c # r" and c: "value_start c"
    using join_start [of kvs ?item "CHR '','' # W"] False by blast
  from c have nc: "\<not> is_ws c" "c \<noteq> CHR ''}''" using value_start_not by blast+
  have "?J @ ?w0 @ CHR ''}'' # rest = c # r @ ?w0 @ CHR ''}'' # rest"
    unfolding J by simp
  then have sk: "skip_ws (?w1 @ ?J @ ?w0 @ CHR ''}'' # rest) = c # r @ ?w0 @ CHR ''}'' # rest"
    by (simp only: skip_ws_append_ws [OF ws_newline_indent] skip_ws_Cons [OF nc(1)])
  have "parse_value (Suc m) (CHR ''{'' # ?w1 @ ?J @ ?w0 @ CHR ''}'' # rest) =
          Some (JObject (map (\<lambda>kv. (fst kv, to_json (snd kv))) kvs), rest)"
    by (simp only: parse_value_object [OF sk nc(2)] parse_members_ws [OF ws_newline_indent] el
        option.case prod.case)
  then show ?thesis by (simp only: enc n to_json.simps)
qed

lemma parse_value_encode:
  "finite_value v \<Longrightarrow> follow rest \<Longrightarrow> length (encode indent level v) < n \<Longrightarrow>
   parse_value n (encode indent level v @ rest) = Some (to_json v, rest)"
proof (induction v arbitrary: indent level rest n)
  case VNone
  then obtain m where n: "n = Suc m" by (cases n) auto
  show ?case unfolding n encode.simps to_json.simps by (rule parse_value_null)
next
  case (VBool b)
  then obtain m where n: "n = Suc m" by (cases n) auto
  show ?case unfolding n
    using parse_value_true [of m rest] parse_value_false [of m rest]
    by (cases b) (simp_all del: parse_value.simps)
next
  case (VInt i)
  then obtain m where n: "n = Suc m" by (cases n) auto
  show ?case unfolding n encode.simps to_json.simps
    by (rule parse_value_number [OF VInt.prems(2)])
next
  case (VFloat x)
  then obtain m where n: "n = Suc m" by (cases n) auto
  from VFloat.prems(1) have "finite_float x" by simp
  then show ?case unfolding n encode.simps to_json.simps
    by (rule parse_value_float [OF _ VFloat.prems(2)])
next
  case (VStr s)
  then obtain m where n: "n = Suc m" by (cases n) auto
  show ?case unfolding n encode.simps to_json.simps by (rule parse_value_string)
next
  case (VDatetime d)
  then obtain m where n: "n = Suc m" by (cases n) auto
  show ?case unfolding n encode.simps to_json.simps by (rule parse_value_string)
next
  case (VOther s)
  then obtain m where n: "n = Suc m" by (cases n) auto
  show ?case unfolding n encode.simps to_json.simps by (rule parse_value_string)
next
  case (VList vs)
  from VList.prems(1) have fin: "\<And>x. x \<in> set vs \<Longrightarrow> finite_value x"
    by (simp add: list_all_iff)
  have "\<And>x indent level rest n. x \<in> set vs \<Longrightarrow> follow rest \<Longrightarrow>
          length (encode indent level x) < n \<Longrightarrow>
          parse_value n (encode indent level x @ rest) = Some (to_json x, rest)"
    by (rule VList.IH) (simp_all add: fin)
  then show ?case by (rule parse_value_list [OF _ fin VList.prems(3)])
next
  case (VDict kvs)
  have "\<And>kv indent level rest n. kv \<in> set kvs \<Longrightarrow> follow rest \<Longrightarrow>
          length (encode indent level (snd kv)) < n \<Longrightarrow>
          parse_value n (encode indent level (snd kv) @ rest) = Some (to_json (snd kv), rest)"
  proof -
    fix kv :: "string \<times> pyvalue" and indent level rest n
    assume k: "kv \<in> set kvs" and f: "follow rest"
      and l: "length (encode indent level (snd kv)) < n"
    have s: "snd kv \<in> Basic_BNFs.snds kv" by (cases kv) simp
    from VDict.prems(1) k have fin: "finite_value (snd kv)" by (simp add: list_all_iff)
    from VDict.IH [OF k s fin f l]
    show "parse_value n (encode indent level (snd kv) @ rest) = Some (to_json (snd kv), rest)" .
  qed
  then show ?case by (rule parse_value_dict [OF _ VDict.prems(3)])
qed

lemma json_loads_encode:
  "finite_value v \<Longrightarrow> json_loads (encode indent level v) = Some (to_json v)"
  using parse_value_encode [of v "[]" indent level "Suc (length (encode indent level v))"]
  by (simp add: json_loads_def follow_simps skip_ws_def)

subsection \<open>The lines of the JSON-lines writer\<close>

lemma split_acc_line:
  "CHR 0x0A \<notin> set l \<Longrightarrow> split_acc acc (l @ CHR 0x0A # s) = (acc @ l) # split_acc [] s"
  by (induction l arbitrary: acc) auto

lemma split_lines_concat:
  "list_all (\<lambda>l. CHR 0x0A \<notin> set l) ls \<Longrightarrow>
   split_lines (concat (map (\<lambda>l. l @ [CHR 0x0A]) ls)) = ls"
  unfolding split_lines_def
  by (induction ls) (simp_all add: split_acc_line)

lemma set_join: "set (join sep xs) \<subseteq> set sep \<union> \<Union> (set ` set xs)"
  by (induction sep xs rule: join.induct) auto

lemma newline_not_digit: "list_all is_digit ds \<Longrightarrow> CHR 0x0A \<notin> set ds"
  by (auto simp add: list_all_iff is_digit_def)

lemma str_int_no_newline: "CHR 0x0A \<notin> set (str_int i)"
  using newline_not_digit [OF str_nat_digits] by (simp add: str_int_def)

lemma frac_digits_no_newline: "CHR 0x0A \<notin> set (frac_digits z f)"
  by (rule newline_not_digit [OF frac_digits_digits])

lemma floatstr_no_newline: "CHR 0x0A \<notin> set (floatstr x)"
proof (cases x)
  case (FFixed neg i z f)
  then show ?thesis
    using newline_not_digit [OF str_nat_digits, of i] frac_digits_no_newline [of z f]
    by simp
next
  case (FSci neg m fr e)
  then show ?thesis
    using newline_not_digit [OF str_nat_digits, of m] newline_not_digit [OF zpad_digits, of 2 "nat \<bar>e\<bar>"]
      frac_digits_no_newline
    by (auto split: option.splits)
qed simp_all

lemma hex_digit_no_newline: "n < 16 \<Longrightarrow> hex_digit n \<noteq> CHR 0x0A"
proof
  assume n: "n < 16" and "hex_digit n = CHR 0x0A"
  then have "(of_char (hex_digit n) :: nat) = of_char (CHR 0x0A)" by simp
  with n show False by (simp add: hex_digit_def split: if_splits)
qed

lemma escape_char_no_newline: "CHR 0x0A \<notin> set (escape_char c)"
proof -
  have d: "(of_char c :: nat) div 16 < 16"
    using nat_of_char_less_256 [of c] by arith
  have m: "(of_char c :: nat) mod 16 < 16" by simp
  show ?thesis
    using hex_digit_no_newline [OF d] hex_digit_no_newline [OF m]
    by (auto simp add: escape_char_def backslash_def dquote_def)
qed

lemma basestring_no_newline: "CHR 0x0A \<notin> set (encode_basestring_ascii s)"
  by (simp add: encode_basestring_ascii_def dquote_def escape_char_no_newline)

lemma join_without:
  assumes "c \<notin> set sep" and "\<And>x. x \<in> set xs \<Longrightarrow> c \<notin> set x"
  shows "c \<notin> set (join sep xs)"
  using set_join [of sep xs] assms by auto

lemma encode_no_newline: "CHR 0x0A \<notin> set (encode None level v)"
proof (induction v arbitrary: level)
  case (VList vs)
  have "CHR 0x0A \<notin> set (join '', '' (map (encode None (Suc level)) vs))"
    by (rule join_without) (use VList.IH in auto)
  then show ?case by (simp add: newline_indent_def item_separator_def)
next
  case (VDict kvs)
  let ?item = "\<lambda>kv. encode_basestring_ascii (fst kv) @ '': '' @ encode None (Suc level) (snd kv)"
  have item: "\<And>kv. kv \<in> set kvs \<Longrightarrow> CHR 0x0A \<notin> set (?item kv)"
  proof -
    fix kv :: "string \<times> pyvalue"
    assume k: "kv \<in> set kvs"
    have "snd kv \<in> Basic_BNFs.snds kv" by (cases kv) simp
    from VDict.IH [OF k this] have "CHR 0x0A \<notin> set (encode None (Suc level) (snd kv))" .
    then show "CHR 0x0A \<notin> set (?item kv)" by (simp add: basestring_no_newline)
  qed
  have "CHR 0x0A \<notin> set (join '', '' (map ?item kvs))"
  proof (rule join_without)
    show "CHR 0x0A \<notin> set '', ''" by simp
    fix x assume "x \<in> set (map ?item kvs)"
    then obtain kv where "kv \<in> set kvs" and "x = ?item kv" by auto
    with item show "CHR 0x0A \<notin> set x" by blast
  qed
  then show ?case by (simp add: newline_indent_def item_separator_def)
qed (simp_all add: str_int_no_newline floatstr_no_newline basestring_no_newline)

lemma jsonl_rows_text:
  "jsonl_rows cfg data out n =
     (out @ concat (map (\<lambda>row. encode None 0 (VDict (filter_row cfg row)) @ [CHR 0x0A]) data),
      Inr (ok_result (n + int (length data))))"
  by (induction data arbitrary: out n) (simp_all add: json_dumps_def add.assoc del: encode.simps)

subsection \<open>The JSON writers\<close>

lemma export_array_filtered:
  "JSONExporter_export cfg data out pretty =
     (out @ encode (if pretty then Some 2 else None) 0 (VList (map (\<lambda>row. VDict (filter_row cfg row)) data)),
      Inr (ok_result (int (length data))))"
proof -
  have "(case columns cfg of None \<Rightarrow> data
         | Some cs \<Rightarrow> if cs \<noteq> [] then map (keep_columns cs) data else data) =
        map (filter_row cfg) data"
    by (cases "columns cfg") (simp_all add: filter_row_def map_idI)
  then show ?thesis
    by (simp add: JSONExporter_export_def json_dumps_def Let_def comp_def del: encode.simps)
qed

lemma filter_row_subset: "set (filter_row cfg row) \<subseteq> set row"
  by (auto simp add: filter_row_def keep_columns_def split: option.splits)

lemma jsonl_lines:
  "split_lines (concat (map (\<lambda>row. encode None 0 (VDict (filter_row cfg row)) @ [CHR 0x0A]) data)) =
     map (\<lambda>row. encode None 0 (VDict (filter_row cfg row))) data"
proof -
  have "list_all (\<lambda>l. CHR 0x0A \<notin> set l)
          (map (\<lambda>row. encode None 0 (VDict (filter_row cfg row))) data)"
    by (simp add: list_all_iff encode_no_newline del: encode.simps)
  from split_lines_concat [OF this] show ?thesis by (simp add: comp_def del: encode.simps)
qed

text \<open>
  Claim C7 says that the array writer produces valid JSON for every record list. For a
  record that holds the float \<open>nan\<close> the encoder, called with its default \<open>allow_nan\<close>,
  writes the name \<open>NaN\<close>, which is not JSON: the reader rejects the array, and the line
  of the JSON-lines writer as well. The outcome is successful all the same.
\<close>

theorem json_writers_nan_counterexample:
  "JSONExporter_export default_config [[(''x'', VFloat FNan)]] [] False =
     (''[{'' @ [dquote] @ ''x'' @ [dquote] @ '': NaN}]'', Inr (ok_result 1)) \<and>
   json_loads (''[{'' @ [dquote] @ ''x'' @ [dquote] @ '': NaN}]'') = None \<and>
   JSONExporter_export_jsonl default_config [[(''x'', VFloat FNan)]] [] =
     (''{'' @ [dquote] @ ''x'' @ [dquote] @ '': NaN}'' @ [CHR 0x0A], Inr (ok_result 1)) \<and>
   json_loads (''{'' @ [dquote] @ ''x'' @ [dquote] @ '': NaN}'') = None"
  by code_simp

text \<open>
  Claim C7, amended. For every record list, configuration and sink, pretty or not, both
  JSON writers return a successful outcome with \<open>row_count = len(data)\<close>; the JSON-lines
  writer appends \<open>len(data)\<close> lines, each ended by a line feed and free of line feeds
  inside; and the column filter maps every record to a record whose items are items of the
  record it came from: it drops fields, not rows. If no value that is written (no value of
  a field that passes the column filter) holds a float that is not finite, the text of the
  array writer is accepted by the reader of JSON text and read as an array with one object
  per record, so an array of \<open>len(data)\<close> elements, and the reader reads each line of the
  JSON-lines writer on its own as the object of its record.
\<close>

theorem json_writers_valid:
  "(\<exists>s. JSONExporter_export cfg data out pretty = (out @ s, Inr (ok_result (int (length data)))) \<and>
        (list_all (\<lambda>row. list_all (\<lambda>kv. finite_value (snd kv)) (filter_row cfg row)) data \<longrightarrow>
           json_loads s =
             Some (JArray (map (\<lambda>row. to_json (VDict (filter_row cfg row))) data)))) \<and>
   length (map (\<lambda>row. to_json (VDict (filter_row cfg row))) data) = length data \<and>
   (\<exists>s. JSONExporter_export_jsonl cfg data out = (out @ s, Inr (ok_result (int (length data)))) \<and>
        s = concat (map (\<lambda>l. l @ [CHR 0x0A]) (split_lines s)) \<and>
        length (split_lines s) = length data \<and>
        (list_all (\<lambda>row. list_all (\<lambda>kv. finite_value (snd kv)) (filter_row cfg row)) data \<longrightarrow>
           map json_loads (split_lines s) =
             map (\<lambda>row. Some (to_json (VDict (filter_row cfg row)))) data \<and>
           list_all (\<lambda>l. is_object (json_loads l)) (split_lines s))) \<and>
   success (ok_result (int (length data))) \<and>
   row_count (ok_result (int (length data))) = int (length data) \<and>
   set (filter_row cfg row) \<subseteq> set row"
proof (intro conjI)
  let ?H = "list_all (\<lambda>row. list_all (\<lambda>kv. finite_value (snd kv)) (filter_row cfg row)) data"
  let ?enc = "\<lambda>row. encode None 0 (VDict (filter_row cfg row))"
  let ?s = "concat (map (\<lambda>row. ?enc row @ [CHR 0x0A]) data)"
  let ?a = "encode (if pretty then Some 2 else None) 0
              (VList (map (\<lambda>row. VDict (filter_row cfg row)) data))"
  have fin: "?H \<Longrightarrow> finite_value (VList (map (\<lambda>row. VDict (filter_row cfg row)) data))"
    by (simp add: list_all_iff)
  have row: "\<And>r. ?H \<Longrightarrow> r \<in> set data \<Longrightarrow> finite_value (VDict (filter_row cfg r))"
    by (simp add: list_all_iff)
  have "JSONExporter_export cfg data out pretty = (out @ ?a, Inr (ok_result (int (length data))))"
    by (rule export_array_filtered)
  moreover have "?H \<longrightarrow>
      json_loads ?a = Some (JArray (map (\<lambda>row. to_json (VDict (filter_row cfg row))) data))"
  proof
    assume ?H
    from json_loads_encode [OF fin [OF this]] show
      "json_loads ?a = Some (JArray (map (\<lambda>row. to_json (VDict (filter_row cfg row))) data))"
      by (simp add: comp_def del: encode.simps)
  qed
  ultimately show "\<exists>s. JSONExporter_export cfg data out pretty =
              (out @ s, Inr (ok_result (int (length data)))) \<and>
            (?H \<longrightarrow> json_loads s =
               Some (JArray (map (\<lambda>row. to_json (VDict (filter_row cfg row))) data)))"
    by blast
  show "length (map (\<lambda>row. to_json (VDict (filter_row cfg row))) data) = length data" by simp
  show "success (ok_result (int (length data)))" by (simp add: ok_result_def)
  show "row_count (ok_result (int (length data))) = int (length data)" by (simp add: ok_result_def)
  show "set (filter_row cfg row) \<subseteq> set row" by (rule filter_row_subset)
  have l: "split_lines ?s = map ?enc data" by (rule jsonl_lines)
  have 1: "JSONExporter_export_jsonl cfg data out = (out @ ?s, Inr (ok_result (int (length data))))"
    by (simp add: JSONExporter_export_jsonl_def jsonl_rows_text del: encode.simps)
  have 2: "?s = concat (map (\<lambda>l. l @ [CHR 0x0A]) (split_lines ?s))"
    by (simp only: l) (simp add: comp_def del: encode.simps)
  have 3: "length (split_lines ?s) = length data" by (simp only: l length_map)
  have 4: "?H \<longrightarrow> map json_loads (split_lines ?s) =
             map (\<lambda>row. Some (to_json (VDict (filter_row cfg row)))) data \<and>
           list_all (\<lambda>l. is_object (json_loads l)) (split_lines ?s)"
  proof
    assume h: ?H
    have e: "\<And>r. r \<in> set data \<Longrightarrow> json_loads (?enc r) = Some (to_json (VDict (filter_row cfg r)))"
      by (rule json_loads_encode [OF row [OF h]])
    have a: "map json_loads (map ?enc data) =
               map (\<lambda>row. Some (to_json (VDict (filter_row cfg row)))) data"
      using e by (simp del: encode.simps to_json.simps)
    have b: "list_all (\<lambda>l. is_object (json_loads l)) (map ?enc data)"
      using e by (simp add: list_all_iff is_object_def del: encode.simps)
    from a b show "map json_loads (split_lines ?s) =
             map (\<lambda>row. Some (to_json (VDict (filter_row cfg row)))) data \<and>
           list_all (\<lambda>l. is_object (json_loads l)) (split_lines ?s)"
      by (simp only: l)
  qed
  from 1 2 3 4
  show "\<exists>s. JSONExporter_export_jsonl cfg data out =
              (out @ s, Inr (ok_result (int (length data)))) \<and>
            s = concat (map (\<lambda>l. l @ [CHR 0x0A]) (split_lines s)) \<and>
            length (split_lines s) = length data \<and>
            (?H \<longrightarrow> map json_loads (split_lines s) =
               map (\<lambda>row. Some (to_json (VDict (filter_row cfg row)))) data \<and>
             list_all (\<lambda>l. is_object (json_loads l)) (split_lines s))"
    by blast
qed

theorem json_writers_valid_witness:
  "list_all (\<lambda>row. list_all (\<lambda>kv. finite_value (snd kv))
                     (filter_row (default_config\<lparr>columns := Some [''id'', ''score'']\<rparr>) row))
     [[(''id'', VInt 1), (''name'', VStr ''Alice''), (''score'', VFloat (FFixed False 9 0 5))],
      [(''id'', VInt 2), (''name'', VStr ''Bob''), (''score'', VFloat (FSci True 1 None (- 7)))]] \<and>
   json_loads (fst (JSONExporter_export (default_config\<lparr>columns := Some [''id'', ''score'']\<rparr>)
     [[(''id'', VInt 1), (''name'', VStr ''Alice''), (''score'', VFloat (FFixed False 9 0 5))],
      [(''id'', VInt 2), (''name'', VStr ''Bob''), (''score'', VFloat (FSci True 1 None (- 7)))]]
     [] True)) =
     Some (JArray [JObject [(''id'', JNumber 1), (''score'', JReal False 9 ''5'' None)],
                   JObject [(''id'', JNumber 2), (''score'', JReal True 1 [] (Some (- 7)))]]) \<and>
   map json_loads (split_lines (fst (JSONExporter_export_jsonl
     (default_config\<lparr>columns := Some [''id'', ''score'']\<rparr>)
     [[(''id'', VInt 1), (''name'', VStr ''Alice''), (''score'', VFloat (FFixed False 9 0 5))],
      [(''id'', VInt 2), (''name'', VStr ''Bob''), (''score'', VFloat (FSci True 1 None (- 7)))]]
     []))) =
     [Some (JObject [(''id'', JNumber 1), (''score'', JReal False 9 ''5'' None)]),
      Some (JObject [(''id'', JNumber 2), (''score'', JReal True 1 [] (Some (- 7)))])]"
proof -
  let ?cfg = "default_config\<lparr>columns := Some [''id'', ''score'']\<rparr>"
  let ?data = "[[(''id'', VInt 1), (''name'', VStr ''Alice''), (''score'', VFloat (FFixed False 9 0 5))],
                [(''id'', VInt 2), (''name'', VStr ''Bob''), (''score'', VFloat (FSci True 1 None (- 7)))]]"
  have n5: "str_nat 5 = ''5''" by code_simp
  have h: "list_all (\<lambda>row. list_all (\<lambda>kv. finite_value (snd kv)) (filter_row ?cfg row)) ?data"
    by (simp add: filter_row_def keep_columns_def)
  have f: "map (\<lambda>row. to_json (VDict (filter_row ?cfg row))) ?data =
             [JObject [(''id'', JNumber 1), (''score'', JReal False 9 ''5'' None)],
              JObject [(''id'', JNumber 2), (''score'', JReal True 1 [] (Some (- 7)))]]"
    by (simp add: filter_row_def keep_columns_def frac_digits_def n5)
  have g: "map (\<lambda>row. Some (to_json (VDict (filter_row ?cfg row)))) ?data =
             [Some (JObject [(''id'', JNumber 1), (''score'', JReal False 9 ''5'' None)]),
              Some (JObject [(''id'', JNumber 2), (''score'', JReal True 1 [] (Some (- 7)))])]"
    by (simp add: filter_row_def keep_columns_def frac_digits_def n5)
  from json_writers_valid [of ?cfg ?data "[]" True "[]"] h
  obtain s t where "JSONExporter_export ?cfg ?data [] True = ([] @ s, Inr (ok_result (int (length ?data))))"
    and "json_loads s = Some (JArray (map (\<lambda>row. to_json (VDict (filter_row ?cfg row))) ?data))"
    and "JSONExporter_export_jsonl ?cfg ?data [] = ([] @ t, Inr (ok_result (int (length ?data))))"
    and "map json_loads (split_lines t) =
           map (\<lambda>row. Some (to_json (VDict (filter_row ?cfg row)))) ?data"
    by blast
  with h show ?thesis by (simp only: f g fst_conv append_Nil simp_thms)
qed

subsection \<open>The empty column list\<close>

text \<open>
  Claim C9 says that an explicit empty column list never produces zero-column output. It
  does when the first record has no field: with \<open>columns = []\<close> and the records \<open>{}\<close> and
  \<open>{a: 1}\<close> the columns are the keys of the first record, none, and the delimited writer
  writes an empty header and two empty rows.
\<close>

theorem empty_columns_zero_counterexample:
  "csv_columns (default_config\<lparr>columns := Some []\<rparr>) [[], [(''a'', VInt 1)]] = Inr [] \<and>
   xml_columns (default_config\<lparr>columns := Some []\<rparr>) [[], [(''a'', VInt 1)]] = [] \<and>
   export_csv [] [[], [(''a'', VInt 1)]] (Some (default_config\<lparr>columns := Some []\<rparr>)) =
     Inr ([CHR 0x0D, CHR 0x0A] @ [CHR 0x0D, CHR 0x0A] @ [CHR 0x0D, CHR 0x0A])"
  by code_simp

text \<open>
  Claim C9, amended. For a record list that is not empty, every writer does with
  \<open>columns = []\<close> what it does with \<open>columns = None\<close>, sink and outcome: the delimited and
  the XML writer take the columns from the keys of the first record, in their order, and
  write the header and the rows, or the row elements, over these columns; the two JSON
  writers filter nothing and write every record whole. The output has no column exactly
  when the first record has no field.
\<close>

theorem empty_columns_as_unset:
  "CSVExporter_export (cfg\<lparr>columns := Some []\<rparr>) (r # rs) out =
     CSVExporter_export (cfg\<lparr>columns := None\<rparr>) (r # rs) out \<and>
   CSVExporter_export (cfg\<lparr>columns := Some []\<rparr>) (r # rs) out =
     write_rows cfg (map fst r) (r # rs)
       (if include_header cfg then writerow (delimiter cfg) (labels_of cfg (map fst r)) out
        else out) 0 \<and>
   XMLExporter_export (cfg\<lparr>columns := Some []\<rparr>) root_element row_element (r # rs) out =
     XMLExporter_export (cfg\<lparr>columns := None\<rparr>) root_element row_element (r # rs) out \<and>
   XMLExporter_export (cfg\<lparr>columns := Some []\<rparr>) root_element row_element (r # rs) out =
     (case xml_rows cfg row_element (map fst r) (r # rs)
             (out @ xml_declaration cfg @ ''<'' @ root_element @ ''>'' @ [CHR 0x0A]) 0 of
        (out', Inl e) \<Rightarrow> (out', Inl e)
      | (out', Inr n) \<Rightarrow> (out' @ ''</'' @ root_element @ ''>'', Inr (ok_result n))) \<and>
   JSONExporter_export (cfg\<lparr>columns := Some []\<rparr>) (r # rs) out pretty =
     JSONExporter_export (cfg\<lparr>columns := None\<rparr>) (r # rs) out pretty \<and>
   JSONExporter_export (cfg\<lparr>columns := Some []\<rparr>) (r # rs) out pretty =
     (out @ encode (if pretty then Some 2 else None) 0 (VList (map VDict (r # rs))),
      Inr (ok_result (int (length (r # rs))))) \<and>
   JSONExporter_export_jsonl (cfg\<lparr>columns := Some []\<rparr>) (r # rs) out =
     JSONExporter_export_jsonl (cfg\<lparr>columns := None\<rparr>) (r # rs) out \<and>
   JSONExporter_export_jsonl (cfg\<lparr>columns := Some []\<rparr>) (r # rs) out =
     (out @ concat (map (\<lambda>row. encode None 0 (VDict row) @ [CHR 0x0A]) (r # rs)),
      Inr (ok_result (int (length (r # rs))))) \<and>
   csv_columns (cfg\<lparr>columns := Some []\<rparr>) (r # rs) = Inr (map fst r) \<and>
   xml_columns (cfg\<lparr>columns := Some []\<rparr>) (r # rs) = map fst r \<and>
   (map fst r = [] \<longleftrightarrow> r = [])"
proof -
  have csv: "\<And>x. (x = None \<or> x = Some []) \<Longrightarrow>
      CSVExporter_export (cfg\<lparr>columns := x\<rparr>) (r # rs) out =
        write_rows cfg (map fst r) (r # rs)
          (if include_header cfg then writerow (delimiter cfg) (labels_of cfg (map fst r)) out
           else out) 0"
    by (auto simp add: CSVExporter_export_def csv_columns_def simp del: write_rows.simps)
  have xml: "\<And>x. (x = None \<or> x = Some []) \<Longrightarrow>
      XMLExporter_export (cfg\<lparr>columns := x\<rparr>) root_element row_element (r # rs) out =
        (case xml_rows cfg row_element (map fst r) (r # rs)
                (out @ xml_declaration cfg @ ''<'' @ root_element @ ''>'' @ [CHR 0x0A]) 0 of
           (out', Inl e) \<Rightarrow> (out', Inl e)
         | (out', Inr n) \<Rightarrow> (out' @ ''</'' @ root_element @ ''>'', Inr (ok_result n)))"
    by (auto simp add: XMLExporter_export_def xml_columns_def xml_declaration_def
        simp del: xml_rows.simps)
  have json: "\<And>x. (x = None \<or> x = Some []) \<Longrightarrow>
      JSONExporter_export (cfg\<lparr>columns := x\<rparr>) (r # rs) out pretty =
        (out @ encode (if pretty then Some 2 else None) 0 (VList (map VDict (r # rs))),
         Inr (ok_result (int (length (r # rs)))))"
    by (auto simp add: JSONExporter_export_def json_dumps_def Let_def simp del: encode.simps)
  have row: "\<And>x row. (x = None \<or> x = Some []) \<Longrightarrow> filter_row (cfg\<lparr>columns := x\<rparr>) row = row"
    by (auto simp add: filter_row_def)
  have jsonl: "\<And>x. (x = None \<or> x = Some []) \<Longrightarrow>
      JSONExporter_export_jsonl (cfg\<lparr>columns := x\<rparr>) (r # rs) out =
        (out @ concat (map (\<lambda>row. encode None 0 (VDict row) @ [CHR 0x0A]) (r # rs)),
         Inr (ok_result (int (length (r # rs)))))"
    by (simp add: JSONExporter_export_jsonl_def jsonl_rows_text row
        del: encode.simps jsonl_rows.simps)
  have cols: "csv_columns (cfg\<lparr>columns := Some []\<rparr>) (r # rs) = Inr (map fst r)"
    "xml_columns (cfg\<lparr>columns := Some []\<rparr>) (r # rs) = map fst r"
    by (simp_all add: csv_columns_def xml_columns_def)
  show ?thesis
    by (simp only: csv [of None] csv [of "Some []"] xml [of None] xml [of "Some []"]
        json [of None] json [of "Some []"] jsonl [of None] jsonl [of "Some []"] cols
        map_is_Nil_conv simp_thms)
qed

theorem empty_columns_as_unset_witness:
  "CSVExporter_export (default_config\<lparr>columns := Some []\<rparr>)
     [[(''a'', VInt 1), (''b'', VStr ''x'')]] [] =
     (''a,b'' @ [CHR 0x0D, CHR 0x0A] @ ''1,x'' @ [CHR 0x0D, CHR 0x0A], Inr (ok_result 1)) \<and>
   XMLExporter_export (default_config\<lparr>columns := Some []\<rparr>) ''data'' ''row''
     [[(''a'', VInt 1), (''b'', VStr ''x'')]] [] =
     (''<?xml version='' @ [dquote] @ ''1.0'' @ [dquote] @ '' encoding='' @ [dquote] @ ''utf-8'' @
      [dquote] @ ''?>'' @ [CHR 0x0A] @ ''<data>'' @ [CHR 0x0A] @ ''  <row>'' @ [CHR 0x0A] @
      ''    <a>1</a>'' @ [CHR 0x0A] @ ''    <b>x</b>'' @ [CHR 0x0A] @ ''  </row>'' @ [CHR 0x0A] @
      ''</data>'', Inr (ok_result 1)) \<and>
   JSONExporter_export (default_config\<lparr>columns := Some []\<rparr>)
     [[(''a'', VInt 1), (''b'', VStr ''x'')]] [] False =
     (''[{'' @ [dquote] @ ''a'' @ [dquote] @ '': 1, '' @ [dquote] @ ''b'' @ [dquote] @ '': '' @
      [dquote] @ ''x'' @ [dquote] @ ''}]'', Inr (ok_result 1)) \<and>
   JSONExporter_export_jsonl (default_config\<lparr>columns := Some []\<rparr>)
     [[(''a'', VInt 1), (''b'', VStr ''x'')]] [] =
     (''{'' @ [dquote] @ ''a'' @ [dquote] @ '': 1, '' @ [dquote] @ ''b'' @ [dquote] @ '': '' @
      [dquote] @ ''x'' @ [dquote] @ ''}'' @ [CHR 0x0A], Inr (ok_result 1)) \<and>
   csv_columns (default_config\<lparr>columns := Some []\<rparr>) [[(''a'', VInt 1), (''b'', VStr ''x'')]] =
     Inr [''a'', ''b'']"
proof -
  let ?r = "[(''a'', VInt 1), (''b'', VStr ''x'')]"
  have c: "write_rows default_config (map fst ?r) (?r # [])
             (if include_header default_config
              then writerow (delimiter default_config) (labels_of default_config (map fst ?r)) []
              else []) 0 =
           (''a,b'' @ [CHR 0x0D, CHR 0x0A] @ ''1,x'' @ [CHR 0x0D, CHR 0x0A], Inr (ok_result 1))"
    by code_simp
  have x: "(case xml_rows default_config ''row'' (map fst ?r) (?r # [])
                  ([] @ xml_declaration default_config @ ''<'' @ ''data'' @ ''>'' @ [CHR 0x0A]) 0 of
              (out', Inl e) \<Rightarrow> (out', Inl e)
            | (out', Inr n) \<Rightarrow> (out' @ ''</'' @ ''data'' @ ''>'', Inr (ok_result n))) =
     (''<?xml version='' @ [dquote] @ ''1.0'' @ [dquote] @ '' encoding='' @ [dquote] @ ''utf-8'' @
      [dquote] @ ''?>'' @ [CHR 0x0A] @ ''<data>'' @ [CHR 0x0A] @ ''  <row>'' @ [CHR 0x0A] @
      ''    <a>1</a>'' @ [CHR 0x0A] @ ''    <b>x</b>'' @ [CHR 0x0A] @ ''  </row>'' @ [CHR 0x0A] @
      ''</data>'', Inr (ok_result 1))"
    by code_simp
  have j: "(([] @ encode (if False then Some 2 else None) 0 (VList (map VDict (?r # []))),
            Inr (ok_result (int (length (?r # []))))) :: string \<times> (pyerror + ExportResult)) =
     (''[{'' @ [dquote] @ ''a'' @ [dquote] @ '': 1, '' @ [dquote] @ ''b'' @ [dquote] @ '': '' @
      [dquote] @ ''x'' @ [dquote] @ ''}]'', Inr (ok_result 1))"
    by code_simp
  have l: "(([] @ concat (map (\<lambda>row. encode None 0 (VDict row) @ [CHR 0x0A]) (?r # [])),
            Inr (ok_result (int (length (?r # []))))) :: string \<times> (pyerror + ExportResult)) =
     (''{'' @ [dquote] @ ''a'' @ [dquote] @ '': 1, '' @ [dquote] @ ''b'' @ [dquote] @ '': '' @
      [dquote] @ ''x'' @ [dquote] @ ''}'' @ [CHR 0x0A], Inr (ok_result 1))"
    by code_simp
  have k: "Inr (map fst ?r) = (Inr [''a'', ''b''] :: pyerror + string list)" by simp
  note th = empty_columns_as_unset [of default_config ?r "[]" "[]" "''data''" "''row''" False]
  note c2 = th [THEN conjunct2]
  note c4 = c2 [THEN conjunct2, THEN conjunct2]
  note c6 = c4 [THEN conjunct2, THEN conjunct2]
  note c8 = c6 [THEN conjunct2, THEN conjunct2]
  have 1: "CSVExporter_export (default_config\<lparr>columns := Some []\<rparr>) [?r] [] =
      (''a,b'' @ [CHR 0x0D, CHR 0x0A] @ ''1,x'' @ [CHR 0x0D, CHR 0x0A], Inr (ok_result 1))"
    by (rule trans [OF c2 [THEN conjunct1] c])
  have 2: "XMLExporter_export (default_config\<lparr>columns := Some []\<rparr>) ''data'' ''row'' [?r] [] =
     (''<?xml version='' @ [dquote] @ ''1.0'' @ [dquote] @ '' encoding='' @ [dquote] @ ''utf-8'' @
      [dquote] @ ''?>'' @ [CHR 0x0A] @ ''<data>'' @ [CHR 0x0A] @ ''  <row>'' @ [CHR 0x0A] @
      ''    <a>1</a>'' @ [CHR 0x0A] @ ''    <b>x</b>'' @ [CHR 0x0A] @ ''  </row>'' @ [CHR 0x0A] @
      ''</data>'', Inr (ok_result 1))"
    by (rule trans [OF c4 [THEN conjunct1] x])
  have 3: "JSONExporter_export (default_config\<lparr>columns := Some []\<rparr>) [?r] [] False =
     (''[{'' @ [dquote] @ ''a'' @ [dquote] @ '': 1, '' @ [dquote] @ ''b'' @ [dquote] @ '': '' @
      [dquote] @ ''x'' @ [dquote] @ ''}]'', Inr (ok_result 1))"
    by (rule trans [OF c6 [THEN conjunct1] j])
  have 4: "JSONExporter_export_jsonl (default_config\<lparr>columns := Some []\<rparr>) [?r] [] =
     (''{'' @ [dquote] @ ''a'' @ [dquote] @ '': 1, '' @ [dquote] @ ''b'' @ [dquote] @ '': '' @
      [dquote] @ ''x'' @ [dquote] @ ''}'' @ [CHR 0x0A], Inr (ok_result 1))"
    by (rule trans [OF c8 [THEN conjunct1] l])
  have 5: "csv_columns (default_config\<lparr>columns := Some []\<rparr>) [?r] = Inr [''a'', ''b'']"
    by (rule trans [OF c8 [THEN conjunct2, THEN conjunct1] k])
  from 1 2 3 4 5 show ?thesis by (intro conjI)
qed

end
